theory Spec2Isabelle
  imports Complex_Main
begin

section \<open>Characters and strings\<close>

text \<open>
  Python strings are sequences of code points. A \<^typ>\<open>char\<close> stands for one code point
  below 256, so the development covers every text over that alphabet. The predicate
  \<open>isspace\<close> is the whitespace test shared by \<^verbatim>\<open>\s\<close>, \<^verbatim>\<open>str.strip()\<close> and
  \<^verbatim>\<open>str.split()\<close>; \<open>isdigit\<close> is \<^verbatim>\<open>\d\<close> and \<^verbatim>\<open>[0-9]\<close>, which agree below 256.
\<close>

definition nl :: char where
  "nl = CHR 0x0A"

definition bslash :: char where
  "bslash = CHR 0x5C"

definition isspace :: "char \<Rightarrow> bool" where
  "isspace c = (c \<in> set [CHR 0x09, CHR 0x0A, CHR 0x0B, CHR 0x0C, CHR 0x0D,
                          CHR 0x1C, CHR 0x1D, CHR 0x1E, CHR 0x1F, CHR 0x20,
                          CHR 0x85, CHR 0xA0])"

definition isdigit :: "char \<Rightarrow> bool" where
  "isdigit c = (c \<in> set ''0123456789'')"

text \<open>\<^verbatim>\<open>s.strip()\<close>: leading and trailing whitespace removed.\<close>

definition strip :: "string \<Rightarrow> string" where
  "strip s = rev (dropWhile isspace (rev (dropWhile isspace s)))"

section \<open>Regular expressions as Python's \<^verbatim>\<open>re\<close> module runs them\<close>

text \<open>
  The patterns of the program are written as terms of \<open>re\<close>, one constructor for each
  construct they use. \<open>rmatch\<close> is a backtracking matcher in continuation-passing style:
  alternatives are tried in the order the pattern gives them, a greedy repetition tries
  the longest run first, a lazy one the shortest, and the first complete success is the
  result, as in \<^verbatim>\<open>re\<close>. Repetition is only ever applied to one-character items in the
  program's patterns, so \<open>Star\<close> and \<open>Lazy\<close> take such an item.

  A matcher state is the character before the current position (\<open>None\<close> at the start
  of the text), the remaining text, and the groups captured so far, latest first.
\<close>

datatype cc =
    Ch char  \<comment> \<open>a literal character\<close>
  | Digit    \<comment> \<open>\<^verbatim>\<open>\d\<close> or \<^verbatim>\<open>[0-9]\<close>\<close>
  | Space    \<comment> \<open>\<^verbatim>\<open>\s\<close>\<close>
  | Dot      \<comment> \<open>\<^verbatim>\<open>.\<close> without DOTALL\<close>
  | DotAll   \<comment> \<open>\<^verbatim>\<open>.\<close> under DOTALL\<close>

fun cc_ok :: "cc \<Rightarrow> char \<Rightarrow> bool" where
  "cc_ok (Ch a) c = (c = a)"
| "cc_ok Digit c = isdigit c"
| "cc_ok Space c = isspace c"
| "cc_ok Dot c = (c \<noteq> nl)"
| "cc_ok DotAll c = True"

datatype re =
    One cc        \<comment> \<open>one character of a class\<close>
  | Lit string    \<comment> \<open>a run of literal characters\<close>
  | Seq re re     \<comment> \<open>concatenation\<close>
  | Alt re re     \<comment> \<open>\<^verbatim>\<open>a|b\<close>\<close>
  | Opt re        \<comment> \<open>\<^verbatim>\<open>(?:a)?\<close>, greedy\<close>
  | Star cc       \<comment> \<open>\<^verbatim>\<open>x*\<close>, greedy\<close>
  | Lazy cc       \<comment> \<open>\<^verbatim>\<open>x*?\<close>\<close>
  | Group nat re  \<comment> \<open>a capturing group and its number\<close>
  | Bol           \<comment> \<open>\<^verbatim>\<open>^\<close> without MULTILINE\<close>
  | Bol_m         \<comment> \<open>\<^verbatim>\<open>^\<close> under MULTILINE\<close>
  | Eol           \<comment> \<open>\<^verbatim>\<open>$\<close> without MULTILINE\<close>
  | Eol_m         \<comment> \<open>\<^verbatim>\<open>$\<close> under MULTILINE\<close>

type_synonym groups = "(nat \<times> string) list"
type_synonym mstate = "char option \<times> string \<times> groups"

fun lit_rest :: "string \<Rightarrow> char option \<Rightarrow> string \<Rightarrow> (char option \<times> string) option" where
  "lit_rest [] p s = Some (p, s)"
| "lit_rest (a # as) p [] = None"
| "lit_rest (a # as) p (x # xs) = (if a = x then lit_rest as (Some x) xs else None)"

fun greedy :: "cc \<Rightarrow> mstate \<Rightarrow> (mstate \<Rightarrow> 'a option) \<Rightarrow> 'a option" where
  "greedy c (p, [], g) k = k (p, [], g)"
| "greedy c (p, x # xs, g) k =
     (if cc_ok c x
      then (case greedy c (Some x, xs, g) k of Some r \<Rightarrow> Some r | None \<Rightarrow> k (p, x # xs, g))
      else k (p, x # xs, g))"

fun lazy :: "cc \<Rightarrow> mstate \<Rightarrow> (mstate \<Rightarrow> 'a option) \<Rightarrow> 'a option" where
  "lazy c (p, [], g) k = k (p, [], g)"
| "lazy c (p, x # xs, g) k =
     (case k (p, x # xs, g) of Some r \<Rightarrow> Some r
      | None \<Rightarrow> if cc_ok c x then lazy c (Some x, xs, g) k else None)"

fun rmatch :: "re \<Rightarrow> mstate \<Rightarrow> (mstate \<Rightarrow> 'a option) \<Rightarrow> 'a option" where
  "rmatch (One c) (p, s, g) k =
     (case s of [] \<Rightarrow> None | x # xs \<Rightarrow> if cc_ok c x then k (Some x, xs, g) else None)"
| "rmatch (Lit l) (p, s, g) k =
     (case lit_rest l p s of None \<Rightarrow> None | Some (p', s') \<Rightarrow> k (p', s', g))"
| "rmatch (Seq a b) st k = rmatch a st (\<lambda>st'. rmatch b st' k)"
| "rmatch (Alt a b) st k = (case rmatch a st k of Some r \<Rightarrow> Some r | None \<Rightarrow> rmatch b st k)"
| "rmatch (Opt a) st k = (case rmatch a st k of Some r \<Rightarrow> Some r | None \<Rightarrow> k st)"
| "rmatch (Star c) st k = greedy c st k"
| "rmatch (Lazy c) st k = lazy c st k"
| "rmatch (Group n a) (p, s, g) k =
     rmatch a (p, s, g) (\<lambda>(p', s', g'). k (p', s', (n, take (length s - length s') s) # g'))"
| "rmatch Bol (p, s, g) k = (if p = None then k (p, s, g) else None)"
| "rmatch Bol_m (p, s, g) k = (if p = None \<or> p = Some nl then k (p, s, g) else None)"
| "rmatch Eol (p, s, g) k = (if s = [] \<or> s = [nl] then k (p, s, g) else None)"
| "rmatch Eol_m (p, s, g) k =
     (case s of [] \<Rightarrow> k (p, s, g) | x # xs \<Rightarrow> if x = nl then k (p, s, g) else None)"

text \<open>One attempt at the current position: the state at the end of the match.\<close>

definition match_at :: "re \<Rightarrow> char option \<Rightarrow> string \<Rightarrow> mstate option" where
  "match_at r p s = rmatch r (p, s, []) Some"

text \<open>\<^verbatim>\<open>match.group(n)\<close>; \<open>None\<close> when the group took no part in the match.\<close>

definition grp :: "mstate \<Rightarrow> nat \<Rightarrow> string option" where
  "grp st n = map_of (snd (snd st)) n"

text \<open>\<^verbatim>\<open>re.match\<close>: one attempt, at the start of the text.\<close>

definition re_match :: "re \<Rightarrow> string \<Rightarrow> mstate option" where
  "re_match r s = match_at r None s"

text \<open>\<^verbatim>\<open>re.search\<close>: the leftmost position at which an attempt succeeds.\<close>

fun search_from :: "re \<Rightarrow> char option \<Rightarrow> string \<Rightarrow> mstate option" where
  "search_from r p [] = match_at r p []"
| "search_from r p (x # xs) =
     (case match_at r p (x # xs) of Some st \<Rightarrow> Some st | None \<Rightarrow> search_from r (Some x) xs)"

definition re_search :: "re \<Rightarrow> string \<Rightarrow> mstate option" where
  "re_search r s = search_from r None s"

text \<open>
  \<^verbatim>\<open>re.sub\<close> and \<^verbatim>\<open>re.findall\<close> scan from left to right and resume after each match. No
  pattern of the program matches the empty string; an empty match is recorded and the scan
  moves on by one character.
\<close>

fun sub_from :: "re \<Rightarrow> string \<Rightarrow> char option \<Rightarrow> string \<Rightarrow> string" where
  "sub_from r repl p [] = (case match_at r p [] of Some st \<Rightarrow> repl | None \<Rightarrow> [])"
| "sub_from r repl p (x # xs) =
     (case match_at r p (x # xs) of
        Some (p', s', g) \<Rightarrow>
          if length s' < length (x # xs) then repl @ sub_from r repl p' s'
          else repl @ x # sub_from r repl (Some x) xs
      | None \<Rightarrow> x # sub_from r repl (Some x) xs)"

definition re_sub :: "re \<Rightarrow> string \<Rightarrow> string \<Rightarrow> string" where
  "re_sub r repl s = sub_from r repl None s"

fun findall_from :: "re \<Rightarrow> char option \<Rightarrow> string \<Rightarrow> mstate list" where
  "findall_from r p [] = (case match_at r p [] of Some st \<Rightarrow> [st] | None \<Rightarrow> [])"
| "findall_from r p (x # xs) =
     (case match_at r p (x # xs) of
        Some (p', s', g) \<Rightarrow>
          if length s' < length (x # xs) then (p', s', g) # findall_from r p' s'
          else (p', s', g) # findall_from r (Some x) xs
      | None \<Rightarrow> findall_from r (Some x) xs)"

definition re_findall :: "re \<Rightarrow> string \<Rightarrow> mstate list" where
  "re_findall r s = findall_from r None s"

text \<open>A sequence of items; \<open>d2\<close> and \<open>d4\<close> are \<^verbatim>\<open>\d{2}\<close> and \<^verbatim>\<open>\d{4}\<close>.\<close>

fun seqs :: "re list \<Rightarrow> re" where
  "seqs [] = Lit []"
| "seqs [r] = r"
| "seqs (r # rs) = Seq r (seqs rs)"

definition d2 :: re where
  "d2 = Seq (One Digit) (One Digit)"

definition d4 :: re where
  "d4 = Seq d2 d2"

text \<open>
  \<^verbatim>\<open>match.group(n)\<close> as a string. Every group of the program's patterns lies on the main
  sequence of its pattern, so it takes part in every match; for a group that took no part
  the empty string is what \<^verbatim>\<open>re.findall\<close> reports.
\<close>

definition mgroup :: "mstate \<Rightarrow> nat \<Rightarrow> string" where
  "mgroup st n = (case grp st n of Some s \<Rightarrow> s | None \<Rightarrow> [])"

section \<open>Fallback timeline extraction (\<^verbatim>\<open>IncidentAnalyzer._extract_timeline\<close>)\<close>

text \<open>
  The section pattern, a raw string in the source:
  \<^verbatim>\<open>2\\. Timeline of Events:\s*\n(.*?)(?:\n\d+\.\s|$)\<close> under DOTALL. In a raw string
  the two backslashes are one escaped backslash and the dot after them is unescaped: the
  pattern asks for \<^verbatim>\<open>2\<close>, a backslash, and any one character.
\<close>

definition timeline_section_re :: re where
  "timeline_section_re =
     seqs [Lit ''2'', Lit [bslash], One DotAll, Lit '' Timeline of Events:'', Star Space,
           Lit [nl], Group 1 (Lazy DotAll),
           Alt (seqs [Lit [nl], One Digit, Star Digit, Lit ''.'', One Space]) Eol]"

text \<open>
  The event-line pattern, under MULTILINE:
  \<^verbatim>\<open>^([0-9]{4}-[0-9]{2}-[0-9]{2} [0-9]{2}:[0-9]{2}(?::[0-9]{2})?(?:-[0-9]{2}:[0-9]{2}(?::[0-9]{2})?)?):\s*(.*)$\<close>
\<close>

definition date_re :: re where
  "date_re = seqs [d4, Lit ''-'', d2, Lit ''-'', d2]"

definition hm_re :: re where
  "hm_re = seqs [d2, Lit '':'', d2]"

definition opt_ss :: re where
  "opt_ss = Opt (Seq (Lit '':'') d2)"

definition event_line_re :: re where
  "event_line_re =
     seqs [Bol_m,
           Group 1 (seqs [date_re, Lit '' '', hm_re, opt_ss, Opt (seqs [Lit ''-'', hm_re, opt_ss])]),
           Lit '':'', Star Space, Group 2 (Star Dot), Eol_m]"

text \<open>A Python dict with string keys and values, as built by the program.\<close>

type_synonym dict = "(string \<times> string) list"

definition extract_timeline :: "string \<Rightarrow> dict list" where
  "extract_timeline report_text =
     (case re_search timeline_section_re report_text of
        None \<Rightarrow> []
      | Some timeline_section_match \<Rightarrow>
          (let timeline_text = mgroup timeline_section_match 1;
               event_lines = re_findall event_line_re timeline_text
           in map (\<lambda>e. [(''time'', mgroup e 1), (''event'', strip (mgroup e 2))]) event_lines))"

section \<open>Report segmentation (\<^verbatim>\<open>IncidentAnalyzer.generate_report\<close>, after the model call)\<close>

text \<open>
  A decoded JSON document. Numbers are rationals; the non-finite floats that
  \<^verbatim>\<open>json.loads\<close> also accepts are left out. \<open>truthy\<close> is Python's truth value of the
  decoded object, as tested by \<^verbatim>\<open>not timeline_events\<close>.
\<close>

datatype json =
    JNull | JBool bool | JNum rat | JStr string | JArr "json list" | JObj "(string \<times> json) list"

fun truthy :: "json \<Rightarrow> bool" where
  "truthy JNull = False"
| "truthy (JBool b) = b"
| "truthy (JNum x) = (x \<noteq> 0)"
| "truthy (JStr s) = (s \<noteq> [])"
| "truthy (JArr xs) = (xs \<noteq> [])"
| "truthy (JObj kvs) = (kvs \<noteq> [])"

text \<open>The list of dicts that the fallback extractor returns, as a JSON value.\<close>

definition events_json :: "dict list \<Rightarrow> json" where
  "events_json evs = JArr (map (\<lambda>d. JObj (map (\<lambda>(k, v). (k, JStr v)) d)) evs)"

text \<open>
  The three channel patterns differ in the channel name only:
  \<^verbatim>\<open>=== NAME ===\s*(.*?)\s*=== END_NAME ===\<close> under DOTALL for \<^verbatim>\<open>re.search\<close>, and the same
  without the group for \<^verbatim>\<open>re.sub\<close>. The JSON block pattern is
  \<^verbatim>\<open>```json\s*(.*?)\s*```\<close> under DOTALL.
\<close>

definition channel_re :: "string \<Rightarrow> re" where
  "channel_re name =
     seqs [Lit (''=== '' @ name @ '' ===''), Star Space, Group 1 (Lazy DotAll), Star Space,
           Lit (''=== END_'' @ name @ '' ==='')]"

definition channel_span_re :: "string \<Rightarrow> re" where
  "channel_span_re name =
     seqs [Lit (''=== '' @ name @ '' ===''), Star Space, Lazy DotAll, Star Space,
           Lit (''=== END_'' @ name @ '' ==='')]"

definition json_block_re :: re where
  "json_block_re =
     seqs [Lit ''```json'', Star Space, Group 1 (Lazy DotAll), Star Space, Lit ''```'']"

text \<open>
  The timeline read from the \<^verbatim>\<open>TIMELINE_JSON\<close> channel. \<^verbatim>\<open>json.loads\<close> is a parameter:
  \<open>None\<close> is any exception it raises, which the source catches and answers with the
  empty list.
\<close>

definition timeline_from_json :: "(string \<Rightarrow> json option) \<Rightarrow> string \<Rightarrow> json" where
  "timeline_from_json json_loads report_text =
     (case re_search (channel_re ''TIMELINE_JSON'') report_text of
        None \<Rightarrow> JArr []
      | Some timeline_match \<Rightarrow>
          (let json_content = strip (mgroup timeline_match 1) in
           case re_search json_block_re json_content of
             None \<Rightarrow> JArr []
           | Some json_block \<Rightarrow>
               (case json_loads (mgroup json_block 1) of
                  None \<Rightarrow> JArr []
                | Some v \<Rightarrow> v)))"

text \<open>
  The monitoring and regression-test channels: when the marker pair is found, the
  stripped content is kept and every span matching the pattern is removed from the report,
  which is stripped again; otherwise the code is empty and the report is unchanged.
\<close>

definition extract_channel :: "string \<Rightarrow> string \<Rightarrow> string \<times> string" where
  "extract_channel name report_text =
     (case re_search (channel_re name) report_text of
        None \<Rightarrow> ([], report_text)
      | Some mt \<Rightarrow>
          (strip (mgroup mt 1), strip (re_sub (channel_span_re name) [] report_text)))"

text \<open>
  The returned dict, without \<^verbatim>\<open>metrics_df\<close>, which comes from the data loader and is
  passed through. The argument \<open>response_content\<close> is the text the model returned.
\<close>

record report =
  report_markdown :: string
  timeline_events :: json
  monitoring_code :: string
  regression_test_code :: string

definition generate_report :: "(string \<Rightarrow> json option) \<Rightarrow> string \<Rightarrow> report" where
  "generate_report json_loads response_content =
     (let timeline_events = timeline_from_json json_loads response_content;
          report_text = strip (re_sub (channel_span_re ''TIMELINE_JSON'') [] response_content);
          timeline_events =
            (if \<not> truthy timeline_events then events_json (extract_timeline report_text)
             else timeline_events);
          (monitoring_code, report_text) = extract_channel ''MONITORING_CODE'' report_text;
          (regression_test_code, report_text) = extract_channel ''REGRESSION_TEST'' report_text
      in \<lparr>report_markdown = report_text, timeline_events = timeline_events,
          monitoring_code = monitoring_code, regression_test_code = regression_test_code\<rparr>)"

text \<open>
  A decoder for the examples: it agrees with \<^verbatim>\<open>json.loads\<close> on the document \<^verbatim>\<open>[]\<close>,
  which decodes to the empty array, and on the truncated document \<^verbatim>\<open>[{\<close>, which is
  rejected.
\<close>

definition json_loads_sample :: "string \<Rightarrow> json option" where
  "json_loads_sample s = (if s = ''[]'' then Some (JArr []) else None)"




section \<open>Timestamps (\<^verbatim>\<open>datetime\<close>)\<close>

text \<open>
  A naive \<^verbatim>\<open>datetime\<close> is its six fields (microseconds are always zero here). The
  constructor accepts years 1 to 9999 and days that exist in the month.
\<close>

record datetime =
  year :: nat
  month :: nat
  day :: nat
  hour :: nat
  minute :: nat
  second :: nat

definition is_leap :: "nat \<Rightarrow> bool" where
  "is_leap y = (y mod 4 = 0 \<and> (y mod 100 \<noteq> 0 \<or> y mod 400 = 0))"

definition days_in_month :: "nat \<Rightarrow> nat \<Rightarrow> nat" where
  "days_in_month y m =
     (if m = 2 then (if is_leap y then 29 else 28)
      else if m = 4 \<or> m = 6 \<or> m = 9 \<or> m = 11 then 30 else 31)"

definition make_datetime :: "nat \<Rightarrow> nat \<Rightarrow> nat \<Rightarrow> nat \<Rightarrow> nat \<Rightarrow> nat \<Rightarrow> datetime option" where
  "make_datetime y mo d h mi s =
     (if 1 \<le> y \<and> y \<le> 9999 \<and> 1 \<le> mo \<and> mo \<le> 12 \<and> 1 \<le> d \<and> d \<le> days_in_month y mo \<and>
         h \<le> 23 \<and> mi \<le> 59 \<and> s \<le> 59
      then Some \<lparr>year = y, month = mo, day = d, hour = h, minute = mi, second = s\<rparr>
      else None)"

text \<open>Comparison of two timestamps is comparison of their field tuples.\<close>

definition dt_less :: "datetime \<Rightarrow> datetime \<Rightarrow> bool" where
  "dt_less a b =
     (year a < year b \<or> (year a = year b \<and>
     (month a < month b \<or> (month a = month b \<and>
     (day a < day b \<or> (day a = day b \<and>
     (hour a < hour b \<or> (hour a = hour b \<and>
     (minute a < minute b \<or> (minute a = minute b \<and> second a < second b))))))))))"

text \<open>
  \<^verbatim>\<open>toordinal()\<close>: days since the day before 0001-01-01, as in the standard library.
\<close>

definition days_before_year :: "nat \<Rightarrow> int" where
  "days_before_year y =
     (let y1 = int y - 1 in y1 * 365 + y1 div 4 - y1 div 100 + y1 div 400)"

definition days_before_month :: "nat \<Rightarrow> nat \<Rightarrow> int" where
  "days_before_month y m = int (sum_list (map (days_in_month y) [1..<m]))"

definition toordinal :: "datetime \<Rightarrow> int" where
  "toordinal d = days_before_year (year d) + days_before_month (year d) (month d) + int (day d)"

text \<open>
  An instant on the axis of seconds: \<open>instant d\<close> is 86400 times the ordinal plus the
  seconds of the day. \<^verbatim>\<open>(a - b).total_seconds()\<close> is the difference of the instants.
\<close>

definition instant :: "datetime \<Rightarrow> int" where
  "instant d = toordinal d * 86400 + int (hour d) * 3600 + int (minute d) * 60 + int (second d)"

definition total_seconds :: "datetime \<Rightarrow> datetime \<Rightarrow> int" where
  "total_seconds a b = instant a - instant b"

text \<open>
  \<^verbatim>\<open>int(s)\<close> on a run of decimal digits, and \<^verbatim>\<open>datetime.strptime\<close> for the two formats
  the program uses. The program only passes text that its timestamp pattern has matched:
  four, two and two digits, one whitespace character, and two digits for each time field.
  On such text \<^verbatim>\<open>strptime\<close> reads the fields as written, builds the \<^verbatim>\<open>datetime\<close>, and
  raises \<^verbatim>\<open>ValueError\<close> (here \<open>None\<close>) when the format does not fit the whole text or a
  field is out of range. Text of any other shape is rejected here.
\<close>

definition digit_val :: "char \<Rightarrow> nat" where
  "digit_val c = of_char c - 48"

definition int_of :: "string \<Rightarrow> nat" where
  "int_of s = foldl (\<lambda>a c. 10 * a + digit_val c) 0 s"

fun strptime_ymd_hms :: "string \<Rightarrow> datetime option" where
  "strptime_ymd_hms [y1, y2, y3, y4, sa, m1, m2, sb, e1, e2, w, h1, h2, sc, n1, n2, sd, s1, s2] =
     (if list_all isdigit [y1, y2, y3, y4, m1, m2, e1, e2, h1, h2, n1, n2, s1, s2] \<and>
         sa = CHR ''-'' \<and> sb = CHR ''-'' \<and> isspace w \<and> sc = CHR '':'' \<and> sd = CHR '':''
      then make_datetime (int_of [y1, y2, y3, y4]) (int_of [m1, m2]) (int_of [e1, e2])
             (int_of [h1, h2]) (int_of [n1, n2]) (int_of [s1, s2])
      else None)"
| "strptime_ymd_hms _ = None"

fun strptime_ymd_hm :: "string \<Rightarrow> datetime option" where
  "strptime_ymd_hm [y1, y2, y3, y4, sa, m1, m2, sb, e1, e2, w, h1, h2, sc, n1, n2] =
     (if list_all isdigit [y1, y2, y3, y4, m1, m2, e1, e2, h1, h2, n1, n2] \<and>
         sa = CHR ''-'' \<and> sb = CHR ''-'' \<and> isspace w \<and> sc = CHR '':''
      then make_datetime (int_of [y1, y2, y3, y4]) (int_of [m1, m2]) (int_of [e1, e2])
             (int_of [h1, h2]) (int_of [n1, n2]) 0
      else None)"
| "strptime_ymd_hm _ = None"

definition strptime :: "string \<Rightarrow> string \<Rightarrow> datetime option" where
  "strptime s fmt =
     (if fmt = ''%Y-%m-%d %H:%M:%S'' then strptime_ymd_hms s
      else if fmt = ''%Y-%m-%d %H:%M'' then strptime_ymd_hm s
      else None)"

section \<open>Parsing the time field of an event\<close>

text \<open>
  The timestamp pattern \<^verbatim>\<open>(\d{4}-\d{2}-\d{2} \d{2}:\d{2}(?::\d{2})?)\<close> of \<^verbatim>\<open>parse_time\<close>;
  \<^verbatim>\<open>parse_start_time\<close> has \<^verbatim>\<open>\s\<close> for the space. Both are used with \<^verbatim>\<open>re.match\<close>.
\<close>

definition stamp_re :: re where
  "stamp_re = seqs [date_re, Lit '' '', hm_re, opt_ss]"

definition parse_time_re :: re where
  "parse_time_re = Group 1 stamp_re"

definition parse_start_time_re :: re where
  "parse_start_time_re = Group 1 (seqs [date_re, One Space, hm_re, opt_ss])"

text \<open>The loop over the two formats: the first that parses wins.\<close>

definition try_formats :: "string \<Rightarrow> datetime option" where
  "try_formats time_part =
     (case strptime time_part ''%Y-%m-%d %H:%M:%S'' of
        Some d \<Rightarrow> Some d
      | None \<Rightarrow>
          (case strptime time_part ''%Y-%m-%d %H:%M'' of
             Some d \<Rightarrow> Some d
           | None \<Rightarrow> None))"

definition parse_time :: "string \<Rightarrow> datetime option" where
  "parse_time time_str =
     (case re_match parse_time_re time_str of
        None \<Rightarrow> None
      | Some mt \<Rightarrow> try_formats (mgroup mt 1))"

definition parse_start_time :: "string \<Rightarrow> datetime option" where
  "parse_start_time time_str =
     (case re_match parse_start_time_re time_str of
        None \<Rightarrow> None
      | Some mt \<Rightarrow> try_formats (mgroup mt 1))"

text \<open>
  The range pattern
  \<^verbatim>\<open>(\d{4}-\d{2}-\d{2} \d{2}:\d{2}(?::\d{2})?)\s*-\s*(\d{2}:\d{2}(?::\d{2})?|\d{4}-\d{2}-\d{2} \d{2}:\d{2}(?::\d{2})?)\<close>
  and the bare time-of-day pattern \<^verbatim>\<open>^\d{2}:\d{2}(?::\d{2})?$\<close>.
\<close>

definition range_re :: re where
  "range_re =
     seqs [Group 1 stamp_re, Star Space, Lit ''-'', Star Space,
           Group 2 (Alt (seqs [hm_re, opt_ss]) stamp_re)]"

definition bare_time_re :: re where
  "bare_time_re = seqs [Bol, hm_re, opt_ss, Eol]"

datatype error = IndexError | ValueError | OverflowError

text \<open>\<^verbatim>\<open>d.get(k, default)\<close> and \<^verbatim>\<open>s.split()[0]\<close>; the latter raises on a blank string.\<close>

definition dict_get :: "dict \<Rightarrow> string \<Rightarrow> string \<Rightarrow> string" where
  "dict_get d k dflt = (case map_of d k of Some v \<Rightarrow> v | None \<Rightarrow> dflt)"

definition split_first :: "string \<Rightarrow> error + string" where
  "split_first s =
     (let t = dropWhile isspace s
      in if t = [] then Inl IndexError else Inr (takeWhile (\<lambda>c. \<not> isspace c) t))"

text \<open>
  One round of the loop of \<^verbatim>\<open>render_timeline_with_events\<close>: the event becomes a range, a
  point, or nothing.
\<close>

datatype parsed = A_point datetime dict | A_range datetime datetime dict | Dropped

definition parse_event :: "dict \<Rightarrow> error + parsed" where
  "parse_event event =
     (let time_field = dict_get event ''time'' [] in
      case re_match range_re time_field of
        Some range_match \<Rightarrow>
          (let start_str = mgroup range_match 1;
               end_str = mgroup range_match 2;
               start_dt = parse_time start_str
           in case (case re_match bare_time_re end_str of
                      Some bm \<Rightarrow>
                        (case split_first start_str of
                           Inl err \<Rightarrow> Inl err
                         | Inr date_part \<Rightarrow> Inr (date_part @ '' '' @ end_str))
                    | None \<Rightarrow> Inr end_str) of
                Inl err \<Rightarrow> Inl err
              | Inr end_str_full \<Rightarrow>
                  (case start_dt of
                     None \<Rightarrow> Inr Dropped
                   | Some s \<Rightarrow>
                       (case parse_time end_str_full of
                          None \<Rightarrow> Inr Dropped
                        | Some e \<Rightarrow> Inr (A_range s e event))))
      | None \<Rightarrow>
          (case parse_time time_field of
             Some dt \<Rightarrow> Inr (A_point dt event)
           | None \<Rightarrow> Inr Dropped))"

text \<open>
  The whole loop: \<^verbatim>\<open>parsed_events\<close> and \<^verbatim>\<open>range_events\<close>, each in the order of the
  input; an exception in a round ends the loop.
\<close>

type_synonym point_event = "datetime \<times> dict"
type_synonym range_event = "datetime \<times> datetime \<times> dict"

fun classify :: "dict list \<Rightarrow> error + (point_event list \<times> range_event list)" where
  "classify [] = Inr ([], [])"
| "classify (event # rest) =
     (case parse_event event of
        Inl err \<Rightarrow> Inl err
      | Inr p \<Rightarrow>
          (case classify rest of
             Inl err \<Rightarrow> Inl err
           | Inr (parsed_events, range_events) \<Rightarrow>
               (case p of
                  A_point dt d \<Rightarrow> Inr ((dt, d) # parsed_events, range_events)
                | A_range s e d \<Rightarrow> Inr (parsed_events, (s, e, d) # range_events)
                | Dropped \<Rightarrow> Inr (parsed_events, range_events))))"

section \<open>Rendering\<close>

text \<open>
  \<^verbatim>\<open>min\<close> and \<^verbatim>\<open>max\<close> of a list of timestamps: \<^verbatim>\<open>ValueError\<close> on the empty list, the
  first smallest or largest element otherwise.
\<close>

fun py_min :: "datetime list \<Rightarrow> error + datetime" where
  "py_min [] = Inl ValueError"
| "py_min (x # xs) = Inr (foldl (\<lambda>m y. if dt_less y m then y else m) x xs)"

fun py_max :: "datetime list \<Rightarrow> error + datetime" where
  "py_max [] = Inl ValueError"
| "py_max (x # xs) = Inr (foldl (\<lambda>m y. if dt_less m y then y else m) x xs)"

text \<open>\<^verbatim>\<open>html.escape\<close> with its default \<^verbatim>\<open>quote=True\<close>.\<close>

definition html_escape :: "string \<Rightarrow> string" where
  "html_escape s =
     concat (map (\<lambda>c. if c = CHR ''&'' then ''&amp;''
                       else if c = CHR ''<'' then ''&lt;''
                       else if c = CHR ''>'' then ''&gt;''
                       else if c = CHR 0x22 then ''&quot;''
                       else if c = CHR 0x27 then ''&#x27;''
                       else [c]) s)"

text \<open>
  What is drawn. The HTML text is kept as its parts: a tick label with its position, its
  instant and the format that prints it; a range bar with its left edge, width and title;
  a dot with its position and the escaped time and description of its tooltip. Positions
  are percentages. The source computes them in floating point as
  \<^verbatim>\<open>(a.total_seconds() / b.total_seconds()) * 100\<close>; here they are exact rationals. Every
  division is under the test \<^verbatim>\<open>duration.total_seconds() > 0\<close>, in the source and here.
\<close>

record label =
  label_left :: rat
  label_dt :: int
  label_fmt :: string

record range_bar =
  bar_left :: rat
  bar_width :: rat
  bar_title :: string

record dot =
  dot_left :: rat
  dot_time :: string
  dot_event :: string

datatype rendered = Info string | Chart "label list" "range_bar list" "dot list"

definition percent :: "int \<Rightarrow> int \<Rightarrow> rat" where
  "percent a b = (of_int a / of_int b) * 100"

definition event_dot :: "datetime \<Rightarrow> int \<Rightarrow> point_event \<Rightarrow> dot" where
  "event_dot start_time duration ev =
     \<lparr>dot_left = (if duration > 0 then percent (total_seconds (fst ev) start_time) duration
                  else 50),
      dot_time = html_escape (dict_get (snd ev) ''time'' []),
      dot_event = html_escape (dict_get (snd ev) ''event'' [])\<rparr>"

definition range_bar_of :: "datetime \<Rightarrow> int \<Rightarrow> range_event \<Rightarrow> range_bar" where
  "range_bar_of start_time duration r =
     (let left = (if duration > 0 then percent (total_seconds (fst r) start_time) duration
                  else 0);
          right = (if duration > 0
                   then percent (total_seconds (fst (snd r)) start_time) duration
                   else 100);
          width = right - left
      in \<lparr>bar_left = left, bar_width = width,
          bar_title = html_escape (dict_get (snd (snd r)) ''time'' []) @ '': '' @
                      html_escape (dict_get (snd (snd r)) ''event'' [])\<rparr>)"

text \<open>
  \<^verbatim>\<open>render_timeline_with_events\<close> from the computation of the bounds on, for the events
  that parsed.
\<close>

definition timeline_chart :: "point_event list \<Rightarrow> range_event list \<Rightarrow> error + rendered" where
  "timeline_chart parsed_events range_events =
     (let all_times = map fst parsed_events @ map fst range_events @
                      map (\<lambda>r. fst (snd r)) range_events
      in case py_min all_times of
           Inl err \<Rightarrow> Inl err
         | Inr start_time \<Rightarrow>
             (case py_max all_times of
                Inl err \<Rightarrow> Inl err
              | Inr end_time \<Rightarrow>
                  (let duration = total_seconds end_time start_time
                   in Inr (Chart []
                             (map (range_bar_of start_time duration) range_events)
                             (map (event_dot start_time duration) parsed_events)))))"

definition render_timeline_with_events :: "dict list \<Rightarrow> error + rendered" where
  "render_timeline_with_events events =
     (if events = [] \<or> length events < 2
      then Inr (Info ''No significant timeline events found for charting.'')
      else case classify events of
             Inl err \<Rightarrow> Inl err
           | Inr (parsed_events, range_events) \<Rightarrow>
               if parsed_events = [] \<and> range_events = []
               then Inr (Info ''A timeline requires at least two events with valid timestamps.'')
               else timeline_chart parsed_events range_events)"

section \<open>Rendering with axis ticks (\<^verbatim>\<open>render_horizontal_timeline\<close>)\<close>

text \<open>
  Tick instants are counted in seconds, as \<open>instant\<close> does. Adding a \<^verbatim>\<open>timedelta\<close> to a
  \<^verbatim>\<open>datetime\<close> raises \<^verbatim>\<open>OverflowError\<close> when the result leaves the years 1 to 9999.
\<close>

definition min_instant :: int where
  "min_instant = 86400"

definition max_instant :: int where
  "max_instant = 3652059 * 86400 + 86399"

definition dt_add :: "int \<Rightarrow> int \<Rightarrow> error + int" where
  "dt_add t delta =
     (if min_instant \<le> t + delta \<and> t + delta \<le> max_instant then Inr (t + delta)
      else Inl OverflowError)"

text \<open>The three tick spacings, each with its step in seconds and its label format.\<close>

datatype spacing = Ten_minutes | Hourly | Daily

fun step_of :: "spacing \<Rightarrow> int" where
  "step_of Ten_minutes = 600"
| "step_of Hourly = 3600"
| "step_of Daily = 86400"

fun fmt_of :: "spacing \<Rightarrow> string" where
  "fmt_of Ten_minutes = ''%H:%M''"
| "fmt_of Hourly = ''%H:00''"
| "fmt_of Daily = ''%b %d''"

definition spacing_for :: "int \<Rightarrow> spacing" where
  "spacing_for duration =
     (if duration < 2 * 3600 then Ten_minutes
      else if duration < 2 * 86400 then Hourly
      else Daily)"

fun start_marker :: "spacing \<Rightarrow> datetime \<Rightarrow> error + int" where
  "start_marker Ten_minutes start_time =
     dt_add (instant (start_time\<lparr>second := 0\<rparr>)) (- (60 * int (minute start_time mod 10)))"
| "start_marker Hourly start_time = Inr (instant (start_time\<lparr>minute := 0, second := 0\<rparr>))"
| "start_marker Daily start_time =
     Inr (instant (start_time\<lparr>hour := 0, minute := 0, second := 0\<rparr>))"

text \<open>
  The loop \<^verbatim>\<open>while current_marker_time <= end_time + step\<close>; a marker is its instant and
  the format of its label.
\<close>

function markers_loop ::
  "spacing \<Rightarrow> int \<Rightarrow> int \<Rightarrow> int \<Rightarrow> (int \<times> string) list \<Rightarrow> error + (int \<times> string) list" where
  "markers_loop sp start_time end_time current_marker_time markers =
     (case dt_add end_time (step_of sp) of
        Inl err \<Rightarrow> Inl err
      | Inr limit \<Rightarrow>
          if current_marker_time \<le> limit
          then (case dt_add start_time (- step_of sp) of
                  Inl err \<Rightarrow> Inl err
                | Inr lower \<Rightarrow>
                    (case dt_add current_marker_time (step_of sp) of
                       Inl err \<Rightarrow> Inl err
                     | Inr next_time \<Rightarrow>
                         markers_loop sp start_time end_time next_time
                           (if current_marker_time \<ge> lower
                            then markers @ [(current_marker_time, fmt_of sp)]
                            else markers)))
          else Inr markers)"
  by pat_completeness auto
termination
proof (relation "measure (\<lambda>(sp, st, en, cur, ms). nat (en + step_of sp + 1 - cur))")
  show "wf (measure (\<lambda>(sp, st, en, cur, ms). nat (en + step_of sp + 1 - cur)))"
    by simp
next
  fix sp :: spacing and start_time end_time current_marker_time :: int
    and markers :: "(int \<times> string) list" and limit lower next_time :: int
  assume "dt_add end_time (step_of sp) = Inr limit" "current_marker_time \<le> limit"
    "dt_add current_marker_time (step_of sp) = Inr next_time"
  moreover have "0 < step_of sp" by (cases sp) simp_all
  ultimately show "((sp, start_time, end_time, next_time,
      if lower \<le> current_marker_time then markers @ [(current_marker_time, fmt_of sp)]
      else markers),
     sp, start_time, end_time, current_marker_time, markers)
    \<in> measure (\<lambda>(sp, st, en, cur, ms). nat (en + step_of sp + 1 - cur))"
    by (auto simp: dt_add_def split: if_splits)
qed

declare markers_loop.simps [simp del]

definition axis_markers :: "datetime \<Rightarrow> datetime \<Rightarrow> int \<Rightarrow> error + (int \<times> string) list" where
  "axis_markers start_time end_time duration =
     (if duration > 1
      then (case start_marker (spacing_for duration) start_time of
              Inl err \<Rightarrow> Inl err
            | Inr first \<Rightarrow>
                markers_loop (spacing_for duration) (instant start_time) (instant end_time)
                  first [])
      else Inr [])"

definition marker_labels :: "datetime \<Rightarrow> int \<Rightarrow> (int \<times> string) list \<Rightarrow> label list" where
  "marker_labels start_time duration markers =
     (if duration > 0
      then map (\<lambda>mk. \<lparr>label_left = percent (fst mk - instant start_time) duration,
                       label_dt = fst mk, label_fmt = snd mk\<rparr>)
             (filter (\<lambda>mk. 0 \<le> percent (fst mk - instant start_time) duration \<and>
                            percent (fst mk - instant start_time) duration \<le> 100) markers)
      else [])"

text \<open>The first loop: the events whose time field parses, each with its timestamp.\<close>

definition start_parsed :: "dict list \<Rightarrow> point_event list" where
  "start_parsed events =
     concat (map (\<lambda>event. case parse_start_time (dict_get event ''time'' []) of
                             Some dt \<Rightarrow> [(dt, event)]
                           | None \<Rightarrow> []) events)"

definition render_horizontal_timeline :: "dict list \<Rightarrow> error + rendered" where
  "render_horizontal_timeline events =
     (if events = [] then Inr (Info ''No timeline events to display.'')
      else
        (let parsed_events = start_parsed events
         in if length parsed_events < 2
            then Inr (Info ''A timeline requires at least two events with valid timestamps.'')
            else case py_min (map fst parsed_events) of
                   Inl err \<Rightarrow> Inl err
                 | Inr start_time \<Rightarrow>
                     (case py_max (map fst parsed_events) of
                        Inl err \<Rightarrow> Inl err
                      | Inr end_time \<Rightarrow>
                          (let duration = total_seconds end_time start_time
                           in case axis_markers start_time end_time duration of
                                Inl err \<Rightarrow> Inl err
                              | Inr markers \<Rightarrow>
                                  Inr (Chart (marker_labels start_time duration markers) []
                                         (map (event_dot start_time duration)
                                            parsed_events))))))"

section \<open>Notions used in the statements and proofs\<close>

text \<open>
  An optional seconds part \<^verbatim>\<open>:SS\<close> as written, and the seconds it stands for: zero when
  it is absent. \<open>has_ss s\<close>: the text \<open>s\<close> begins with a seconds part.
\<close>

fun is_opt_ss :: "string \<Rightarrow> bool" where
  "is_opt_ss [] = True"
| "is_opt_ss [c, a, b] = (c = CHR '':'' \<and> isdigit a \<and> isdigit b)"
| "is_opt_ss _ = False"

definition ss_val :: "string \<Rightarrow> nat" where
  "ss_val ss = int_of (drop 1 ss)"

fun has_ss :: "string \<Rightarrow> bool" where
  "has_ss (c # a # b # s) = (c = CHR '':'' \<and> isdigit a \<and> isdigit b)"
| "has_ss _ = False"

text \<open>
  The group numbers of a pattern, and what a match leaves alone: the text only gets
  shorter, and groups that the pattern does not contain keep their value.
\<close>

fun gnums :: "re \<Rightarrow> nat set" where
  "gnums (Seq a b) = gnums a \<union> gnums b"
| "gnums (Alt a b) = gnums a \<union> gnums b"
| "gnums (Opt a) = gnums a"
| "gnums (Group n a) = insert n (gnums a)"
| "gnums _ = {}"

definition reaches :: "re \<Rightarrow> mstate \<Rightarrow> mstate \<Rightarrow> bool" where
  "reaches r st st' =
     (length (fst (snd st')) \<le> length (fst (snd st)) \<and>
      (\<forall>n. n \<notin> gnums r \<longrightarrow> map_of (snd (snd st')) n = map_of (snd (snd st)) n))"

text \<open>The character before the position reached after a run \<open>ws\<close>.\<close>

definition prev_after :: "char option \<Rightarrow> string \<Rightarrow> char option" where
  "prev_after p ws = (if ws = [] then p else Some (last ws))"

text \<open>
  The shapes that the statements about the fallback extractor speak of. A date is
  \<^verbatim>\<open>YYYY-MM-DD\<close>, a time is \<^verbatim>\<open>HH:MM\<close>; a stamp is a date, a space, a time and an optional
  seconds part, optionally followed directly by a dash, a second time and its optional
  seconds part; so a stamp has 16, 19, 22, 25 or 28 characters.
  \<open>has_stamp_colon l\<close>: the line \<open>l\<close> begins with a stamp and a colon.
\<close>

fun is_date :: "string \<Rightarrow> bool" where
  "is_date [y1, y2, y3, y4, sa, m1, m2, sb, e1, e2] =
     (list_all isdigit [y1, y2, y3, y4, m1, m2, e1, e2] \<and> sa = CHR ''-'' \<and> sb = CHR ''-'')"
| "is_date _ = False"

fun is_hm :: "string \<Rightarrow> bool" where
  "is_hm [h1, h2, sc, n1, n2] = (list_all isdigit [h1, h2, n1, n2] \<and> sc = CHR '':'')"
| "is_hm _ = False"

definition is_opt_range :: "string \<Rightarrow> bool" where
  "is_opt_range rng =
     (rng = [] \<or>
      (take 1 rng = ''-'' \<and> is_hm (take 5 (drop 1 rng)) \<and> is_opt_ss (drop 6 rng)))"

definition is_stamp :: "string \<Rightarrow> bool" where
  "is_stamp ts =
     (is_date (take 10 ts) \<and> take 1 (drop 10 ts) = '' '' \<and> is_hm (take 5 (drop 11 ts)) \<and>
      (is_opt_range (drop 16 ts) \<or>
       (is_opt_ss (take 3 (drop 16 ts)) \<and> is_opt_range (drop 19 ts))))"

definition has_stamp_colon :: "string \<Rightarrow> bool" where
  "has_stamp_colon l =
     list_ex (\<lambda>n. is_stamp (take n l) \<and> take 1 (drop n l) = '':'') [16, 19, 22, 25, 28]"






section \<open>Properties\<close>


text \<open>
  C1. The claim: a report with the heading \<^verbatim>\<open>### 2. Timeline of Events:\<close> followed by the
  line \<^verbatim>\<open>2024-01-15 14:05:00: auth-service high memory\<close> yields exactly one event. The
  code does not find the section: after \<^verbatim>\<open>2\<close> the pattern wants a backslash, the text
  has a dot, and the extractor returns no event.
\<close>

theorem extract_timeline_numbered_heading_not_found:
  "extract_timeline (''### 2. Timeline of Events:'' @ [nl] @
     ''2024-01-15 14:05:00: auth-service high memory'') = []"
  by code_simp









text \<open>
  C4. When the \<^verbatim>\<open>TIMELINE_JSON\<close> marker pair is present and its content holds no
  \<^verbatim>\<open>```json\<close> block, or the decoder raises on the block's content, the JSON path yields the
  empty event list without raising, and the timeline of the report is what the fallback
  extractor finds in the text left after the channel is removed.
\<close>

theorem malformed_timeline_channel_falls_back:
  assumes "re_search (channel_re ''TIMELINE_JSON'') text = Some tm"
    and "re_search json_block_re (strip (mgroup tm 1)) = None \<or>
         (\<exists>jb. re_search json_block_re (strip (mgroup tm 1)) = Some jb \<and>
               json_loads (mgroup jb 1) = None)"
  shows "timeline_from_json json_loads text = JArr [] \<and>
         timeline_events (generate_report json_loads text) =
           events_json (extract_timeline
             (strip (re_sub (channel_span_re ''TIMELINE_JSON'') [] text)))"
proof -
  have a: "timeline_from_json json_loads text = JArr []"
    using assms by (auto simp: timeline_from_json_def Let_def)
  show ?thesis
    using a by (simp add: generate_report_def Let_def split: prod.split)
qed

text \<open>
  An instance: the block holds the truncated document \<^verbatim>\<open>[{\<close>; the event comes from the
  text section.
\<close>

theorem malformed_timeline_channel_falls_back_witness:
  "re_search (channel_re ''TIMELINE_JSON'')
     (''=== TIMELINE_JSON === ```json [{ ``` === END_TIMELINE_JSON ==='' @ [nl] @
      ''2'' @ [bslash] @ ''. Timeline of Events:'' @ [nl] @ ''2024-01-15 14:05:00: x'')
     = Some (Some CHR ''='', [nl] @ ''2'' @ [bslash] @ ''. Timeline of Events:'' @ [nl] @
               ''2024-01-15 14:05:00: x'', [(1, ''```json [{ ```'')])
   \<and> re_search json_block_re ''```json [{ ```'' = Some (Some CHR 0x60, [], [(1, ''[{'')])
   \<and> json_loads_sample ''[{'' = None
   \<and> timeline_events (generate_report json_loads_sample
        (''=== TIMELINE_JSON === ```json [{ ``` === END_TIMELINE_JSON ==='' @ [nl] @
         ''2'' @ [bslash] @ ''. Timeline of Events:'' @ [nl] @ ''2024-01-15 14:05:00: x''))
       = JArr [JObj [(''time'', JStr ''2024-01-15 14:05:00''), (''event'', JStr ''x'')]]"
proof -
  let ?text = "''=== TIMELINE_JSON === ```json [{ ``` === END_TIMELINE_JSON ==='' @ [nl] @
      ''2'' @ [bslash] @ ''. Timeline of Events:'' @ [nl] @ ''2024-01-15 14:05:00: x''"
  let ?tm = "(Some CHR ''='', [nl] @ ''2'' @ [bslash] @ ''. Timeline of Events:'' @ [nl] @
               ''2024-01-15 14:05:00: x'', [(1, ''```json [{ ```'')])"
  have h1: "re_search (channel_re ''TIMELINE_JSON'') ?text = Some ?tm"
    by code_simp
  have g: "strip (mgroup ?tm 1) = ''```json [{ ```''"
    by code_simp
  have h2: "re_search json_block_re ''```json [{ ```'' = Some (Some CHR 0x60, [], [(1, ''[{'')])"
    by code_simp
  have h3: "json_loads_sample (mgroup (Some CHR 0x60, [], [(1, ''[{'')]) 1) = None"
    by code_simp
  have h4: "json_loads_sample ''[{'' = None"
    by (simp add: json_loads_sample_def)
  have e: "events_json (extract_timeline
             (strip (re_sub (channel_span_re ''TIMELINE_JSON'') [] ?text)))
           = JArr [JObj [(''time'', JStr ''2024-01-15 14:05:00''), (''event'', JStr ''x'')]]"
    by code_simp
  from h2 h3 have d: "re_search json_block_re (strip (mgroup ?tm 1)) = None \<or>
         (\<exists>jb. re_search json_block_re (strip (mgroup ?tm 1)) = Some jb \<and>
               json_loads_sample (mgroup jb 1) = None)"
    unfolding g by blast
  from malformed_timeline_channel_falls_back [where json_loads = json_loads_sample, OF h1 d] e h1 h2 h4 show ?thesis
    by simp
qed


text \<open>
  C10. When the channel holds a well-formed block that decodes to the empty array, the
  fallback extractor is run all the same: it is run whenever the decoded value is falsy.
\<close>

theorem empty_json_array_falls_back:
  assumes "re_search (channel_re ''TIMELINE_JSON'') text = Some tm"
    and "re_search json_block_re (strip (mgroup tm 1)) = Some jb"
    and "json_loads (mgroup jb 1) = Some (JArr [])"
  shows "timeline_events (generate_report json_loads text) =
           events_json (extract_timeline
             (strip (re_sub (channel_span_re ''TIMELINE_JSON'') [] text)))"
proof -
  have a: "timeline_from_json json_loads text = JArr []"
    using assms by (simp add: timeline_from_json_def Let_def)
  show ?thesis
    using a by (simp add: generate_report_def Let_def split: prod.split)
qed

text \<open>An instance: the block holds \<^verbatim>\<open>[]\<close>.\<close>

theorem empty_json_array_falls_back_witness:
  "re_search (channel_re ''TIMELINE_JSON'')
     (''=== TIMELINE_JSON === ```json [] ``` === END_TIMELINE_JSON ==='' @ [nl] @
      ''2'' @ [bslash] @ ''. Timeline of Events:'' @ [nl] @ ''2024-01-15 14:05:00: x'')
     = Some (Some CHR ''='', [nl] @ ''2'' @ [bslash] @ ''. Timeline of Events:'' @ [nl] @
               ''2024-01-15 14:05:00: x'', [(1, ''```json [] ```'')])
   \<and> re_search json_block_re ''```json [] ```'' = Some (Some CHR 0x60, [], [(1, ''[]'')])
   \<and> json_loads_sample ''[]'' = Some (JArr [])
   \<and> timeline_events (generate_report json_loads_sample
        (''=== TIMELINE_JSON === ```json [] ``` === END_TIMELINE_JSON ==='' @ [nl] @
         ''2'' @ [bslash] @ ''. Timeline of Events:'' @ [nl] @ ''2024-01-15 14:05:00: x''))
       = JArr [JObj [(''time'', JStr ''2024-01-15 14:05:00''), (''event'', JStr ''x'')]]"
proof -
  let ?text = "''=== TIMELINE_JSON === ```json [] ``` === END_TIMELINE_JSON ==='' @ [nl] @
      ''2'' @ [bslash] @ ''. Timeline of Events:'' @ [nl] @ ''2024-01-15 14:05:00: x''"
  let ?tm = "(Some CHR ''='', [nl] @ ''2'' @ [bslash] @ ''. Timeline of Events:'' @ [nl] @
               ''2024-01-15 14:05:00: x'', [(1, ''```json [] ```'')])"
  let ?jb = "(Some CHR 0x60, [], [(1, ''[]'')])"
  have h1: "re_search (channel_re ''TIMELINE_JSON'') ?text = Some ?tm"
    by code_simp
  have g: "strip (mgroup ?tm 1) = ''```json [] ```''"
    by code_simp
  have h2: "re_search json_block_re ''```json [] ```'' = Some ?jb"
    by code_simp
  have h3: "json_loads_sample (mgroup ?jb 1) = Some (JArr [])"
    by code_simp
  have h4: "json_loads_sample ''[]'' = Some (JArr [])"
    by (simp add: json_loads_sample_def)
  have e: "events_json (extract_timeline
             (strip (re_sub (channel_span_re ''TIMELINE_JSON'') [] ?text)))
           = JArr [JObj [(''time'', JStr ''2024-01-15 14:05:00''), (''event'', JStr ''x'')]]"
    by code_simp
  from h2 have h2': "re_search json_block_re (strip (mgroup ?tm 1)) = Some ?jb"
    unfolding g .
  from empty_json_array_falls_back [where json_loads = json_loads_sample, OF h1 h2' h3] e h1 h2 h4 show ?thesis
    by simp
qed




subsection \<open>The matcher\<close>

lemma lit_rest_length: "lit_rest l p s = Some (p', s') \<Longrightarrow> length s' \<le> length s"
  by (induction l p s rule: lit_rest.induct) (auto split: if_splits)

lemma greedy_reaches:
  "greedy c (p, s, g) k = Some res \<Longrightarrow>
     \<exists>p' s'. k (p', s', g) = Some res \<and> length s' \<le> length s"
proof (induction s arbitrary: p)
  case Nil
  then show ?case by auto
next
  case (Cons x xs)
  show ?case
  proof (cases "cc_ok c x \<and> greedy c (Some x, xs, g) k \<noteq> None")
    case True
    then have "greedy c (Some x, xs, g) k = Some res"
      using Cons.prems by (auto split: option.splits)
    from Cons.IH [OF this] show ?thesis using le_SucI by fastforce
  next
    case False
    then have "k (p, x # xs, g) = Some res"
      using Cons.prems by (auto split: option.splits if_splits)
    then show ?thesis by (intro exI [of _ p] exI [of _ "x # xs"]) simp
  qed
qed

lemma lazy_reaches:
  "lazy c (p, s, g) k = Some res \<Longrightarrow>
     \<exists>p' s'. k (p', s', g) = Some res \<and> length s' \<le> length s"
proof (induction s arbitrary: p)
  case Nil
  then show ?case by auto
next
  case (Cons x xs)
  show ?case
  proof (cases "k (p, x # xs, g)")
    case None
    then have "lazy c (Some x, xs, g) k = Some res"
      using Cons.prems by (auto split: if_splits)
    from Cons.IH [OF this] show ?thesis using le_SucI by fastforce
  next
    case (Some a)
    then have "k (p, x # xs, g) = Some res" using Cons.prems by simp
    then show ?thesis by (intro exI [of _ p] exI [of _ "x # xs"]) simp
  qed
qed

lemma rmatch_reaches:
  "rmatch r (p, s, g) k = Some res \<Longrightarrow>
     \<exists>p' s' g'. k (p', s', g') = Some res \<and> reaches r (p, s, g) (p', s', g')"
proof (induction r arbitrary: p s g k)
  case (One c)
  then obtain x xs where "s = x # xs" "k (Some x, xs, g) = Some res"
    by (auto split: list.splits if_splits)
  then show ?case by (fastforce simp: reaches_def)
next
  case (Lit l)
  then show ?case
    by (auto simp: reaches_def split: option.splits dest: lit_rest_length)
next
  case (Seq a b)
  from Seq.prems have "rmatch a (p, s, g) (\<lambda>st'. rmatch b st' k) = Some res" by simp
  from Seq.IH(1) [OF this] obtain p1 s1 g1 where
    1: "rmatch b (p1, s1, g1) k = Some res" and 2: "reaches a (p, s, g) (p1, s1, g1)"
    by blast
  from Seq.IH(2) [OF 1] obtain p2 s2 g2 where
    3: "k (p2, s2, g2) = Some res" and 4: "reaches b (p1, s1, g1) (p2, s2, g2)"
    by blast
  from 2 4 have "reaches (Seq a b) (p, s, g) (p2, s2, g2)"
    by (auto simp: reaches_def)
  with 3 show ?case by blast
next
  case (Alt a b)
  show ?case
  proof (cases "rmatch a (p, s, g) k")
    case None
    then have "rmatch b (p, s, g) k = Some res" using Alt.prems by simp
    from Alt.IH(2) [OF this] show ?thesis by (auto simp: reaches_def)
  next
    case (Some x)
    then have "rmatch a (p, s, g) k = Some res" using Alt.prems by simp
    from Alt.IH(1) [OF this] show ?thesis by (auto simp: reaches_def)
  qed
next
  case (Opt a)
  show ?case
  proof (cases "rmatch a (p, s, g) k")
    case None
    then have "k (p, s, g) = Some res" using Opt.prems by simp
    then show ?thesis by (auto simp: reaches_def)
  next
    case (Some x)
    then have "rmatch a (p, s, g) k = Some res" using Opt.prems by simp
    from Opt.IH [OF this] show ?thesis by (auto simp: reaches_def)
  qed
next
  case (Star c)
  then show ?case using greedy_reaches [of c p s g k res] by (auto simp: reaches_def)
next
  case (Lazy c)
  then show ?case using lazy_reaches [of c p s g k res] by (auto simp: reaches_def)
next
  case (Group n a)
  from Group.prems have
    "rmatch a (p, s, g)
       (\<lambda>(p', s', g'). k (p', s', (n, take (length s - length s') s) # g')) = Some res"
    by simp
  from Group.IH [OF this] obtain p1 s1 g1 where
    1: "k (p1, s1, (n, take (length s - length s1) s) # g1) = Some res"
    and 2: "reaches a (p, s, g) (p1, s1, g1)"
    by auto
  from 2 have "reaches (Group n a) (p, s, g) (p1, s1, (n, take (length s - length s1) s) # g1)"
    by (auto simp: reaches_def)
  with 1 show ?case by blast
next
  case Bol
  then show ?case by (auto simp: reaches_def split: if_splits)
next
  case Bol_m
  then show ?case by (auto simp: reaches_def split: if_splits)
next
  case Eol
  then show ?case by (auto simp: reaches_def split: if_splits)
next
  case Eol_m
  then have "k (p, s, g) = Some res" by (auto split: if_splits list.splits)
  then show ?case by (intro exI [of _ p] exI [of _ s] exI [of _ g]) (simp add: reaches_def)
qed

lemma isdigit_not_space: "isdigit c \<Longrightarrow> \<not> isspace c"
  by (auto simp: isdigit_def isspace_def)


lemma isspace_not_sep: "isspace c \<Longrightarrow> c \<noteq> CHR '':'' \<and> c \<noteq> CHR ''-''"
  by (auto simp: isspace_def)

lemma sep_not_space:
  "isspace CHR '' ''" "\<not> isspace CHR ''-''" "\<not> isspace CHR '':''" "isspace nl"
  by (simp_all add: isspace_def nl_def)

lemma greedy_space_run:
  assumes "list_all isspace ws" and "\<not> isspace x"
    and "k (prev_after p ws, x # xs, g) \<noteq> None"
  shows "greedy Space (p, ws @ x # xs, g) k = k (prev_after p ws, x # xs, g)"
  using assms
proof (induction ws arbitrary: p)
  case Nil
  then show ?case by (simp add: prev_after_def)
next
  case (Cons w ws)
  have e: "prev_after (Some w) ws = prev_after p (w # ws)"
    by (simp add: prev_after_def)
  from Cons.prems have
    "greedy Space (Some w, ws @ x # xs, g) k = k (prev_after (Some w) ws, x # xs, g)"
    by (intro Cons.IH) (simp_all add: e)
  with Cons.prems show ?case
    by (auto simp: e split: option.splits)
qed

lemma rmatch_d2:
  "isdigit a \<Longrightarrow> isdigit b \<Longrightarrow> rmatch d2 (p, a # b # s, g) k = k (Some b, s, g)"
  by (simp add: d2_def)

lemma rmatch_date:
  "list_all isdigit [y1, y2, y3, y4, m1, m2, e1, e2] \<Longrightarrow>
   rmatch date_re
     (p, y1 # y2 # y3 # y4 # CHR ''-'' # m1 # m2 # CHR ''-'' # e1 # e2 # s, g) k
   = k (Some e2, s, g)"
  by (simp add: date_re_def d4_def rmatch_d2)

lemma rmatch_hm:
  "list_all isdigit [h1, h2, n1, n2] \<Longrightarrow>
   rmatch hm_re (p, h1 # h2 # CHR '':'' # n1 # n2 # s, g) k = k (Some n2, s, g)"
  by (simp add: hm_re_def rmatch_d2)

lemma rmatch_opt_ss_taken:
  "isdigit a \<Longrightarrow> isdigit b \<Longrightarrow> k (Some b, s, g) \<noteq> None \<Longrightarrow>
   rmatch opt_ss (p, CHR '':'' # a # b # s, g) k = k (Some b, s, g)"
  by (auto simp: opt_ss_def rmatch_d2)

lemma rmatch_opt_ss_skipped:
  "\<not> has_ss s \<Longrightarrow> rmatch opt_ss (p, s, g) k = k (p, s, g)"
  by (cases s rule: has_ss.cases) (auto simp: opt_ss_def d2_def)

lemma has_ss_simps:
  "list_all isspace ws \<Longrightarrow> \<not> has_ss (ws @ CHR ''-'' # s)"
  "\<not> isdigit x \<Longrightarrow> \<not> has_ss (CHR '':'' # x # s)"
  "c \<noteq> CHR '':'' \<Longrightarrow> \<not> has_ss (c # s)"
  by (cases ws rule: has_ss.cases; cases s rule: has_ss.cases; auto dest: isspace_not_sep)+

lemma is_opt_ss_cases:
  assumes "is_opt_ss ss"
  obtains "ss = []" | a b where "ss = [CHR '':'', a, b]" "isdigit a" "isdigit b"
  using assms by (cases ss rule: is_opt_ss.cases) auto

subsection \<open>The point parser\<close>

lemma parse_time_with_seconds:
  assumes "list_all isdigit [y1, y2, y3, y4, m1, m2, e1, e2, h1, h2, n1, n2, s1, s2]"
  shows "parse_time ([y1, y2, y3, y4, CHR ''-'', m1, m2, CHR ''-'', e1, e2, CHR '' '',
             h1, h2, CHR '':'', n1, n2, CHR '':'', s1, s2] @ rest)
         = make_datetime (int_of [y1, y2, y3, y4]) (int_of [m1, m2]) (int_of [e1, e2])
             (int_of [h1, h2]) (int_of [n1, n2]) (int_of [s1, s2])"
  using assms
  by (simp add: parse_time_def re_match_def match_at_def parse_time_re_def stamp_re_def
      rmatch_date rmatch_hm rmatch_opt_ss_taken mgroup_def grp_def try_formats_def
      strptime_def sep_not_space split: option.split)

lemma parse_time_without_seconds:
  assumes "list_all isdigit [y1, y2, y3, y4, m1, m2, e1, e2, h1, h2, n1, n2]"
    and "\<not> has_ss rest"
  shows "parse_time ([y1, y2, y3, y4, CHR ''-'', m1, m2, CHR ''-'', e1, e2, CHR '' '',
             h1, h2, CHR '':'', n1, n2] @ rest)
         = make_datetime (int_of [y1, y2, y3, y4]) (int_of [m1, m2]) (int_of [e1, e2])
             (int_of [h1, h2]) (int_of [n1, n2]) 0"
  using assms
  by (simp add: parse_time_def re_match_def match_at_def parse_time_re_def stamp_re_def
      rmatch_date rmatch_hm rmatch_opt_ss_skipped mgroup_def grp_def try_formats_def
      strptime_def sep_not_space split: option.split)

lemma parse_time_needs_digit:
  "parse_time [] = None" "\<not> isdigit c \<Longrightarrow> parse_time (c # s) = None"
  by (simp_all add: parse_time_def re_match_def match_at_def parse_time_re_def stamp_re_def
      date_re_def d4_def d2_def)

text \<open>
  C8. A time field that begins with \<^verbatim>\<open>YYYY-MM-DD HH:MM:SS\<close> parses to the timestamp whose
  fields are the numbers written, whatever follows it, when those numbers are a date and
  time of the calendar (and to nothing otherwise): no zone or offset is applied. The match
  is anchored: a time field that is empty or does not begin with a digit gives no point.
\<close>

theorem parse_time_literal_value:
  assumes "list_all isdigit [y1, y2, y3, y4, m1, m2, e1, e2, h1, h2, n1, n2, s1, s2]"
    and "Y = int_of [y1, y2, y3, y4]" and "M = int_of [m1, m2]" and "D = int_of [e1, e2]"
    and "h = int_of [h1, h2]" and "mi = int_of [n1, n2]" and "s = int_of [s1, s2]"
  shows "parse_time ([y1, y2, y3, y4, CHR ''-'', m1, m2, CHR ''-'', e1, e2, CHR '' '',
             h1, h2, CHR '':'', n1, n2, CHR '':'', s1, s2] @ rest)
         = (if 1 \<le> Y \<and> Y \<le> 9999 \<and> 1 \<le> M \<and> M \<le> 12 \<and> 1 \<le> D \<and> D \<le> days_in_month Y M \<and>
               h \<le> 23 \<and> mi \<le> 59 \<and> s \<le> 59
            then Some \<lparr>year = Y, month = M, day = D, hour = h, minute = mi, second = s\<rparr>
            else None)
         \<and> parse_time [] = None
         \<and> (\<forall>c t. \<not> isdigit c \<longrightarrow> parse_time (c # t) = None)"
  using parse_time_with_seconds [OF assms(1), of rest] assms(2-) parse_time_needs_digit
  by (simp add: make_datetime_def)

text \<open>
  An instance: the timestamp is read as written, with text after it; the same timestamp
  in the middle of the field gives nothing.
\<close>

theorem parse_time_literal_value_witness:
  "parse_time ''2024-01-15 14:05:00 UTC''
     = Some \<lparr>year = 2024, month = 1, day = 15, hour = 14, minute = 5, second = 0\<rparr>
   \<and> parse_time ''at 2024-01-15 14:05:00'' = None"
proof -
  have d: "list_all isdigit ''20240115140500''"
    by (simp add: isdigit_def)
  have v: "int_of ''2024'' = 2024" "int_of ''01'' = 1" "int_of ''15'' = 15"
    "int_of ''14'' = 14" "int_of ''05'' = 5" "int_of ''00'' = 0"
    by (simp_all add: int_of_def digit_val_def)
  have n: "\<not> isdigit CHR ''a''"
    by (simp add: isdigit_def)
  from parse_time_literal_value [of "CHR ''2''" "CHR ''0''" "CHR ''2''" "CHR ''4''"
      "CHR ''0''" "CHR ''1''" "CHR ''1''" "CHR ''5''" "CHR ''1''" "CHR ''4''"
      "CHR ''0''" "CHR ''5''" "CHR ''0''" "CHR ''0''" 2024 1 15 14 5 0 "'' UTC''"] d v n
  show ?thesis
    by (simp add: days_in_month_def)
qed

subsection \<open>The range parser\<close>

lemma parse_time_stamp:
  assumes "list_all isdigit [y1, y2, y3, y4, m1, m2, e1, e2, h1, h2, n1, n2]"
    and "is_opt_ss ss"
  shows "parse_time ([y1, y2, y3, y4, CHR ''-'', m1, m2, CHR ''-'', e1, e2, CHR '' '',
             h1, h2, CHR '':'', n1, n2] @ ss)
         = make_datetime (int_of [y1, y2, y3, y4]) (int_of [m1, m2]) (int_of [e1, e2])
             (int_of [h1, h2]) (int_of [n1, n2]) (ss_val ss)"
proof (cases rule: is_opt_ss_cases [OF assms(2)])
  case 1
  then show ?thesis
    using parse_time_without_seconds [OF assms(1), of "[]"]
    by (simp add: ss_val_def int_of_def)
next
  case (2 a b)
  then show ?thesis
    using assms(1)
      parse_time_with_seconds [of y1 y2 y3 y4 m1 m2 e1 e2 h1 h2 n1 n2 a b "[]"]
    by (simp add: ss_val_def)
qed

lemma range_match:
  assumes "list_all isdigit [y1, y2, y3, y4, m1, m2, e1, e2, h1, h2, n1, n2]"
    and "list_all isdigit [i1, i2, j1, j2]"
    and "is_opt_ss ss1" and "is_opt_ss ss2"
    and "list_all isspace ws1" and "list_all isspace ws2"
  shows "\<exists>p. re_match range_re
           ([y1, y2, y3, y4, CHR ''-'', m1, m2, CHR ''-'', e1, e2, CHR '' '',
             h1, h2, CHR '':'', n1, n2] @ ss1 @ ws1 @ ''-'' @ ws2 @
            [i1, i2, CHR '':'', j1, j2] @ ss2)
         = Some (p, [],
             [(2, [i1, i2, CHR '':'', j1, j2] @ ss2),
              (1, [y1, y2, y3, y4, CHR ''-'', m1, m2, CHR ''-'', e1, e2, CHR '' '',
                   h1, h2, CHR '':'', n1, n2] @ ss1)])"
proof (cases rule: is_opt_ss_cases [OF assms(3)])
  case 1
  show ?thesis
  proof (cases rule: is_opt_ss_cases [OF assms(4)])
    case 1
    with \<open>ss1 = []\<close> assms show ?thesis
      by (simp add: re_match_def match_at_def range_re_def stamp_re_def rmatch_date rmatch_hm
          rmatch_opt_ss_skipped has_ss_simps greedy_space_run isdigit_not_space sep_not_space)
  next
    case (2 a b)
    with \<open>ss1 = []\<close> assms show ?thesis
      by (simp add: re_match_def match_at_def range_re_def stamp_re_def rmatch_date rmatch_hm
          rmatch_opt_ss_skipped rmatch_opt_ss_taken has_ss_simps greedy_space_run
          isdigit_not_space sep_not_space)
  qed
next
  case (2 c d)
  note ss1 = this
  show ?thesis
  proof (cases rule: is_opt_ss_cases [OF assms(4)])
    case 1
    with ss1 assms show ?thesis
      by (simp add: re_match_def match_at_def range_re_def stamp_re_def rmatch_date rmatch_hm
          rmatch_opt_ss_skipped rmatch_opt_ss_taken has_ss_simps greedy_space_run
          isdigit_not_space sep_not_space)
  next
    case (2 a b)
    with ss1 assms show ?thesis
      by (simp add: re_match_def match_at_def range_re_def stamp_re_def rmatch_date rmatch_hm
          rmatch_opt_ss_skipped rmatch_opt_ss_taken has_ss_simps greedy_space_run
          isdigit_not_space sep_not_space)
  qed
qed

lemma bare_time_match:
  assumes "list_all isdigit [i1, i2, j1, j2]" and "is_opt_ss ss2"
  shows "re_match bare_time_re ([i1, i2, CHR '':'', j1, j2] @ ss2) \<noteq> None"
  using assms
  by (cases rule: is_opt_ss_cases [OF assms(2)])
     (simp_all add: re_match_def match_at_def bare_time_re_def rmatch_hm
        rmatch_opt_ss_skipped rmatch_opt_ss_taken)

lemma split_first_stamp:
  assumes "list_all isdigit [y1, y2, y3, y4, m1, m2, e1, e2]"
  shows "split_first ([y1, y2, y3, y4, CHR ''-'', m1, m2, CHR ''-'', e1, e2, CHR '' ''] @ s)
         = Inr [y1, y2, y3, y4, CHR ''-'', m1, m2, CHR ''-'', e1, e2]"
  using assms by (simp add: split_first_def isdigit_not_space sep_not_space)

text \<open>
  C6. A time field of the form \<^verbatim>\<open>YYYY-MM-DD HH:MM[:SS]\<close>, a dash with any whitespace
  around it, and a bare \<^verbatim>\<open>HH:MM[:SS]\<close> parses to a range: the start has the fields
  written on the left, the end has the date of the left side and the time written on the
  right, and an absent seconds part counts as zero on either side (given that both are
  times of the calendar).
\<close>

theorem range_end_reuses_start_date:
  assumes "list_all isdigit [y1, y2, y3, y4, m1, m2, e1, e2, h1, h2, n1, n2]"
    and "list_all isdigit [i1, i2, j1, j2]"
    and "is_opt_ss ss1" and "is_opt_ss ss2"
    and "list_all isspace ws1" and "list_all isspace ws2"
    and "Y = int_of [y1, y2, y3, y4]" and "M = int_of [m1, m2]" and "D = int_of [e1, e2]"
    and "make_datetime Y M D (int_of [h1, h2]) (int_of [n1, n2]) (ss_val ss1) = Some start"
    and "make_datetime Y M D (int_of [i1, i2]) (int_of [j1, j2]) (ss_val ss2) = Some end"
    and "time_field = [y1, y2, y3, y4, CHR ''-'', m1, m2, CHR ''-'', e1, e2, CHR '' '',
                       h1, h2, CHR '':'', n1, n2] @ ss1 @ ws1 @ ''-'' @ ws2 @
                      [i1, i2, CHR '':'', j1, j2] @ ss2"
  shows "parse_event [(''time'', time_field), (''event'', desc)]
           = Inr (A_range start end [(''time'', time_field), (''event'', desc)])
         \<and> start = \<lparr>year = Y, month = M, day = D, hour = int_of [h1, h2],
                     minute = int_of [n1, n2], second = ss_val ss1\<rparr>
         \<and> end = \<lparr>year = Y, month = M, day = D, hour = int_of [i1, i2],
                   minute = int_of [j1, j2], second = ss_val ss2\<rparr>"
proof -
  from range_match [OF assms(1-6)] obtain p where
    m: "re_match range_re time_field
         = Some (p, [],
             [(2, [i1, i2, CHR '':'', j1, j2] @ ss2),
              (1, [y1, y2, y3, y4, CHR ''-'', m1, m2, CHR ''-'', e1, e2, CHR '' '',
                   h1, h2, CHR '':'', n1, n2] @ ss1)])"
    unfolding assms(12) by blast
  from bare_time_match [OF assms(2,4)] obtain bm where
    b: "re_match bare_time_re ([i1, i2, CHR '':'', j1, j2] @ ss2) = Some bm"
    by blast
  have d: "list_all isdigit [y1, y2, y3, y4, m1, m2, e1, e2]"
    using assms(1) by simp
  have s: "parse_time ([y1, y2, y3, y4, CHR ''-'', m1, m2, CHR ''-'', e1, e2, CHR '' '',
             h1, h2, CHR '':'', n1, n2] @ ss1) = Some start"
    using parse_time_stamp [OF assms(1,3)] assms(7-10) by simp
  have i: "list_all isdigit [y1, y2, y3, y4, m1, m2, e1, e2, i1, i2, j1, j2]"
    using assms(1,2) by simp
  have e: "parse_time ([y1, y2, y3, y4, CHR ''-'', m1, m2, CHR ''-'', e1, e2, CHR '' '',
             i1, i2, CHR '':'', j1, j2] @ ss2) = Some end"
    using parse_time_stamp [OF i assms(4)] assms(7-11) by simp
  have "parse_event [(''time'', time_field), (''event'', desc)]
          = Inr (A_range start end [(''time'', time_field), (''event'', desc)])"
    using m b s e split_first_stamp [OF d, of "[h1, h2, CHR '':'', n1, n2] @ ss1"]
    by (simp add: parse_event_def dict_get_def mgroup_def grp_def)
  moreover from assms(10,11) have
    "start = \<lparr>year = Y, month = M, day = D, hour = int_of [h1, h2],
              minute = int_of [n1, n2], second = ss_val ss1\<rparr>"
    "end = \<lparr>year = Y, month = M, day = D, hour = int_of [i1, i2],
            minute = int_of [j1, j2], second = ss_val ss2\<rparr>"
    by (auto simp: make_datetime_def split: if_splits)
  ultimately show ?thesis by simp
qed

text \<open>
  Two instances: \<^verbatim>\<open>2024-01-15 14:00:00 - 14:30:00\<close>, and the same range with no seconds
  on either side.
\<close>

theorem range_end_reuses_start_date_witness:
  "parse_event [(''time'', ''2024-01-15 14:00:00 - 14:30:00''), (''event'', ''deploy'')]
     = Inr (A_range
         \<lparr>year = 2024, month = 1, day = 15, hour = 14, minute = 0, second = 0\<rparr>
         \<lparr>year = 2024, month = 1, day = 15, hour = 14, minute = 30, second = 0\<rparr>
         [(''time'', ''2024-01-15 14:00:00 - 14:30:00''), (''event'', ''deploy'')])
   \<and> parse_event [(''time'', ''2024-01-15 14:00 - 14:30''), (''event'', ''deploy'')]
     = Inr (A_range
         \<lparr>year = 2024, month = 1, day = 15, hour = 14, minute = 0, second = 0\<rparr>
         \<lparr>year = 2024, month = 1, day = 15, hour = 14, minute = 30, second = 0\<rparr>
         [(''time'', ''2024-01-15 14:00 - 14:30''), (''event'', ''deploy'')])"
proof -
  have d: "list_all isdigit ''202401151400''" "list_all isdigit ''1430''"
    by (simp_all add: isdigit_def)
  have o: "is_opt_ss '':00''" "is_opt_ss []"
    by (simp_all add: isdigit_def)
  have w: "list_all isspace '' ''"
    by (simp add: isspace_def)
  have v: "2024 = int_of ''2024''" "1 = int_of ''01''" "15 = int_of ''15''"
    by (simp_all add: int_of_def digit_val_def)
  have a: "make_datetime 2024 1 15 (int_of ''14'') (int_of ''00'') (ss_val '':00'')
      = Some \<lparr>year = 2024, month = 1, day = 15, hour = 14, minute = 0, second = 0\<rparr>"
    "make_datetime 2024 1 15 (int_of ''14'') (int_of ''30'') (ss_val '':00'')
      = Some \<lparr>year = 2024, month = 1, day = 15, hour = 14, minute = 30, second = 0\<rparr>"
    "make_datetime 2024 1 15 (int_of ''14'') (int_of ''00'') (ss_val [])
      = Some \<lparr>year = 2024, month = 1, day = 15, hour = 14, minute = 0, second = 0\<rparr>"
    "make_datetime 2024 1 15 (int_of ''14'') (int_of ''30'') (ss_val [])
      = Some \<lparr>year = 2024, month = 1, day = 15, hour = 14, minute = 30, second = 0\<rparr>"
    by (simp_all add: make_datetime_def days_in_month_def int_of_def digit_val_def ss_val_def)
  have t1: "''2024-01-15 14:00:00 - 14:30:00'' =
      [CHR ''2'', CHR ''0'', CHR ''2'', CHR ''4'', CHR ''-'', CHR ''0'', CHR ''1'', CHR ''-'',
       CHR ''1'', CHR ''5'', CHR '' '', CHR ''1'', CHR ''4'', CHR '':'', CHR ''0'', CHR ''0'']
      @ '':00'' @ '' '' @ ''-'' @ '' '' @
      [CHR ''1'', CHR ''4'', CHR '':'', CHR ''3'', CHR ''0''] @ '':00''"
    by simp
  have t2: "''2024-01-15 14:00 - 14:30'' =
      [CHR ''2'', CHR ''0'', CHR ''2'', CHR ''4'', CHR ''-'', CHR ''0'', CHR ''1'', CHR ''-'',
       CHR ''1'', CHR ''5'', CHR '' '', CHR ''1'', CHR ''4'', CHR '':'', CHR ''0'', CHR ''0'']
      @ [] @ '' '' @ ''-'' @ '' '' @
      [CHR ''1'', CHR ''4'', CHR '':'', CHR ''3'', CHR ''0''] @ []"
    by simp
  from range_end_reuses_start_date [OF d(1) d(2) o(1) o(1) w w v a(1) a(2) t1, of "''deploy''"]
    range_end_reuses_start_date [OF d(1) d(2) o(2) o(2) w w v a(3) a(4) t2, of "''deploy''"]
  show ?thesis by simp
qed

subsection \<open>The renderer never raises, and drops what it cannot parse\<close>

lemma rmatch_stamp_first:
  assumes "rmatch stamp_re (p, s, g) k = Some res"
  shows "\<exists>x xs p' s' g'. s = x # xs \<and> isdigit x \<and> k (p', s', g') = Some res \<and>
           length s' \<le> length xs \<and> (\<forall>n. map_of g' n = map_of g n)"
proof -
  let ?tail = "seqs [One Digit, d2, Lit ''-'', d2, Lit ''-'', d2, Lit '' '', hm_re, opt_ss]"
  have "rmatch stamp_re (p, s, g) k = rmatch (Seq (One Digit) ?tail) (p, s, g) k"
    by (simp add: stamp_re_def date_re_def d4_def d2_def)
  with assms obtain x xs where
    1: "s = x # xs" "isdigit x" "rmatch ?tail (Some x, xs, g) k = Some res"
    by (auto split: list.splits if_splits)
  from rmatch_reaches [OF 1(3)] obtain p' s' g' where
    2: "k (p', s', g') = Some res" "reaches ?tail (Some x, xs, g) (p', s', g')"
    by blast
  have "gnums ?tail = {}"
    by (simp add: d2_def hm_re_def opt_ss_def)
  with 2(2) have "length s' \<le> length xs" "\<forall>n. map_of g' n = map_of g n"
    by (simp_all add: reaches_def)
  with 1 2(1) show ?thesis by blast
qed

lemma range_group1_digit:
  assumes "re_match range_re t = Some rm"
  shows "\<exists>x u. mgroup rm 1 = x # u \<and> isdigit x"
proof -
  let ?rest = "seqs [Star Space, Lit ''-'', Star Space,
                     Group 2 (Alt (seqs [hm_re, opt_ss]) stamp_re)]"
  let ?k = "\<lambda>(p', s', g'). rmatch ?rest (p', s', (1, take (length t - length s') t) # g') Some"
  from assms have "rmatch stamp_re (None, t, []) ?k = Some rm"
    by (simp add: re_match_def match_at_def range_re_def split_def)
  from rmatch_stamp_first [OF this] obtain x xs p' s' g' where
    1: "t = x # xs" "isdigit x" "length s' \<le> length xs"
    and 2: "rmatch ?rest (p', s', (1, take (length t - length s') t) # g') Some = Some rm"
    by auto
  from rmatch_reaches [OF 2] obtain p2 s2 g2 where
    3: "rm = (p2, s2, g2)"
    "reaches ?rest (p', s', (1, take (length t - length s') t) # g') (p2, s2, g2)"
    by auto
  from 3(2) have "map_of g2 1 = Some (take (length t - length s') t)"
    by (simp add: reaches_def stamp_re_def date_re_def d4_def d2_def hm_re_def opt_ss_def)
  moreover from 1 have "take (length t - length s') t = x # take (length xs - length s') xs"
    by (simp add: Suc_diff_le)
  ultimately show ?thesis
    using 1(2) 3(1) by (simp add: mgroup_def grp_def)
qed

lemma parse_event_total: "\<exists>p. parse_event e = Inr p"
proof (cases "re_match range_re (dict_get e ''time'' [])")
  case None
  then show ?thesis
    by (simp add: parse_event_def split: option.split)
next
  case (Some rm)
  from range_group1_digit [OF Some] obtain x u where
    "mgroup rm 1 = x # u" "isdigit x"
    by blast
  then have "\<exists>d. split_first (mgroup rm 1) = Inr d"
    by (simp add: split_first_def isdigit_not_space)
  with Some show ?thesis
    by (auto simp: parse_event_def Let_def split: option.split sum.split)
qed

lemma classify_total: "\<exists>ps rs. classify evs = Inr (ps, rs)"
proof (induction evs)
  case Nil
  then show ?case by simp
next
  case (Cons e evs)
  from parse_event_total obtain p where "parse_event e = Inr p" by blast
  with Cons show ?case
    by (cases p) auto
qed

lemma timeline_chart_total:
  assumes "ps \<noteq> [] \<or> rs \<noteq> []"
  shows "\<exists>out. timeline_chart ps rs = Inr out"
proof -
  let ?all = "map fst ps @ map fst rs @ map (\<lambda>r. fst (snd r)) rs"
  from assms have "?all \<noteq> []" by auto
  then obtain x xs where "?all = x # xs" by (cases ?all) auto
  then show ?thesis
    by (simp add: timeline_chart_def Let_def)
qed

lemma render_timeline_with_events_total:
  "\<exists>out. render_timeline_with_events evs = Inr out"
proof -
  from classify_total obtain ps rs where c: "classify evs = Inr (ps, rs)" by blast
  show ?thesis
  proof (cases "ps = [] \<and> rs = []")
    case True
    with c show ?thesis by (simp add: render_timeline_with_events_def)
  next
    case False
    then have "ps \<noteq> [] \<or> rs \<noteq> []" by simp
    from timeline_chart_total [OF this] obtain out where "timeline_chart ps rs = Inr out"
      by blast
    with c False show ?thesis by (auto simp: render_timeline_with_events_def)
  qed
qed

lemma classify_append:
  "classify (xs @ ys) =
     (case classify xs of
        Inl err \<Rightarrow> Inl err
      | Inr (ps, rs) \<Rightarrow>
          (case classify ys of
             Inl err \<Rightarrow> Inl err
           | Inr (ps', rs') \<Rightarrow> Inr (ps @ ps', rs @ rs')))"
proof (induction xs)
  case Nil
  then show ?case by (simp split: sum.split)
next
  case (Cons x xs)
  then show ?case
    by (simp split: sum.split parsed.split prod.split)
qed

text \<open>
  C9. An event whose time field matches neither the range pattern nor the point parser
  is dropped: wherever it stands in the list, the parsed points and ranges are those of
  the list without it, so it adds nothing to the bounds or the marks and the events around
  it are processed as before; the renderer returns (no exception); and when at least two
  events remain, what is rendered is what is rendered without it.
\<close>

theorem unparseable_event_is_dropped:
  assumes "re_match range_re (dict_get e ''time'' []) = None"
    and "parse_time (dict_get e ''time'' []) = None"
  shows "parse_event e = Inr Dropped
         \<and> classify (xs @ e # ys) = classify (xs @ ys)
         \<and> (\<exists>out. render_timeline_with_events (xs @ e # ys) = Inr out)
         \<and> (2 \<le> length (xs @ ys) \<longrightarrow>
              render_timeline_with_events (xs @ e # ys) = render_timeline_with_events (xs @ ys))"
proof -
  have d: "parse_event e = Inr Dropped"
    using assms by (simp add: parse_event_def)
  have c: "classify (xs @ e # ys) = classify (xs @ ys)"
    using d by (simp add: classify_append split: sum.split prod.split)
  have r: "2 \<le> length (xs @ ys) \<longrightarrow>
      render_timeline_with_events (xs @ e # ys) = render_timeline_with_events (xs @ ys)"
    using c by (auto simp: render_timeline_with_events_def)
  from d c r render_timeline_with_events_total show ?thesis by blast
qed

text \<open>
  An instance: an event with the time \<^verbatim>\<open>around noon\<close> between two events that parse. The
  chart has the two dots of the others.
\<close>

theorem unparseable_event_is_dropped_witness:
  "re_match range_re ''around noon'' = None \<and> parse_time ''around noon'' = None
   \<and> render_timeline_with_events
       [[(''time'', ''2024-01-15 14:00:00''), (''event'', ''A'')],
        [(''time'', ''around noon''), (''event'', ''B'')],
        [(''time'', ''2024-01-15 14:30:00''), (''event'', ''C'')]]
     = Inr (Chart [] []
         [\<lparr>dot_left = 0, dot_time = ''2024-01-15 14:00:00'', dot_event = ''A''\<rparr>,
          \<lparr>dot_left = 100, dot_time = ''2024-01-15 14:30:00'', dot_event = ''C''\<rparr>])"
proof -
  let ?a = "[(''time'', ''2024-01-15 14:00:00''), (''event'', ''A'')]"
  let ?b = "[(''time'', ''around noon''), (''event'', ''B'')]"
  let ?c = "[(''time'', ''2024-01-15 14:30:00''), (''event'', ''C'')]"
  have h1: "re_match range_re (dict_get ?b ''time'' []) = None"
    by code_simp
  have h2: "parse_time (dict_get ?b ''time'' []) = None"
    by code_simp
  have g: "dict_get ?b ''time'' [] = ''around noon''"
    by code_simp
  have r: "render_timeline_with_events ([?a] @ [?c])
     = Inr (Chart [] []
         [\<lparr>dot_left = 0, dot_time = ''2024-01-15 14:00:00'', dot_event = ''A''\<rparr>,
          \<lparr>dot_left = 100, dot_time = ''2024-01-15 14:30:00'', dot_event = ''C''\<rparr>])"
    by code_simp
  from unparseable_event_is_dropped [OF h1 h2, of "[?a]" "[?c]"] h1 h2 r
  show ?thesis
    unfolding g by simp
qed

subsection \<open>Fewer than two parsed entries\<close>

text \<open>
  C2. The claim: with fewer than two entries that carry a timestamp the renderer shows a
  placeholder and draws no chart. The code tests the number of events given (fewer than
  two) and then whether no entry parsed at all; with two events of which one parses it
  draws a chart whose single dot stands at 50 percent.
\<close>

theorem single_parsed_event_is_charted:
  "render_timeline_with_events
     [[(''time'', ''2024-01-15 14:05:00''), (''event'', ''A'')],
      [(''time'', ''n/a''), (''event'', ''B'')]]
   = Inr (Chart [] []
       [\<lparr>dot_left = 50, dot_time = ''2024-01-15 14:05:00'', dot_event = ''A''\<rparr>])"
  by code_simp

subsection \<open>Ticks and positions\<close>

text \<open>
  C3, as amended. In \<^verbatim>\<open>render_horizontal_timeline\<close>, when the duration between the earliest
  and the latest parsed event is at most one second no tick is generated. In both
  renderers the dots are the parsed point events, each placed by the same rule: at 50
  percent when the duration is zero, and at \<open>(t - start) / duration * 100\<close> when the
  duration is greater than zero. A duration of exactly one second is in the second case.
\<close>

theorem ticks_and_dot_positions:
  assumes "2 \<le> length (start_parsed events)"
    and "py_min (map fst (start_parsed events)) = Inr start_time"
    and "py_max (map fst (start_parsed events)) = Inr end_time"
    and "duration = total_seconds end_time start_time"
    and "2 \<le> length events'"
    and "classify events' = Inr (ps, rs)"
    and "ps \<noteq> [] \<or> rs \<noteq> []"
    and "py_min (map fst ps @ map fst rs @ map (\<lambda>r. fst (snd r)) rs) = Inr start_time'"
    and "py_max (map fst ps @ map fst rs @ map (\<lambda>r. fst (snd r)) rs) = Inr end_time'"
    and "duration' = total_seconds end_time' start_time'"
  shows "(duration \<le> 1 \<longrightarrow>
            axis_markers start_time end_time duration = Inr [] \<and>
            render_horizontal_timeline events =
              Inr (Chart [] [] (map (event_dot start_time duration) (start_parsed events))))
         \<and> (\<forall>labels bars dots.
              render_horizontal_timeline events = Inr (Chart labels bars dots) \<longrightarrow>
              dots = map (event_dot start_time duration) (start_parsed events))
         \<and> render_timeline_with_events events' =
             Inr (Chart [] (map (range_bar_of start_time' duration') rs)
                    (map (event_dot start_time' duration') ps))
         \<and> (\<forall>s d ev. d = 0 \<longrightarrow> dot_left (event_dot s d ev) = 50)
         \<and> (\<forall>s d ev. 0 < d \<longrightarrow>
              dot_left (event_dot s d ev) = of_int (instant (fst ev) - instant s) / of_int d * 100)"
proof -
  have e: "events \<noteq> []"
    using assms(1) by (auto simp: start_parsed_def)
  have a: "duration \<le> 1 \<longrightarrow>
            axis_markers start_time end_time duration = Inr [] \<and>
            render_horizontal_timeline events =
              Inr (Chart [] [] (map (event_dot start_time duration) (start_parsed events)))"
    using e assms(1-4)
    by (simp add: render_horizontal_timeline_def axis_markers_def marker_labels_def Let_def)
  have b: "\<forall>labels bars dots.
              render_horizontal_timeline events = Inr (Chart labels bars dots) \<longrightarrow>
              dots = map (event_dot start_time duration) (start_parsed events)"
    using e assms(1-4)
    by (auto simp: render_horizontal_timeline_def Let_def split: sum.splits)
  have c: "render_timeline_with_events events' =
             Inr (Chart [] (map (range_bar_of start_time' duration') rs)
                    (map (event_dot start_time' duration') ps))"
    using assms(5-10)
    by (auto simp: render_timeline_with_events_def timeline_chart_def Let_def)
  have d: "\<forall>s d ev. d = 0 \<longrightarrow> dot_left (event_dot s d ev) = 50"
    by (simp add: event_dot_def)
  have f: "\<forall>s d ev. 0 < d \<longrightarrow>
              dot_left (event_dot s d ev) = of_int (instant (fst ev) - instant s) / of_int d * 100"
    by (simp add: event_dot_def percent_def total_seconds_def)
  from a b c d f show ?thesis by blast
qed

text \<open>
  An instance: two events one second apart. No tick, and the dots stand at 0 and 100
  percent in both renderers.
\<close>

theorem ticks_and_dot_positions_witness:
  "render_horizontal_timeline
     [[(''time'', ''2024-01-15 14:00:00''), (''event'', ''A'')],
      [(''time'', ''2024-01-15 14:00:01''), (''event'', ''B'')]]
   = Inr (Chart [] []
       [\<lparr>dot_left = 0, dot_time = ''2024-01-15 14:00:00'', dot_event = ''A''\<rparr>,
        \<lparr>dot_left = 100, dot_time = ''2024-01-15 14:00:01'', dot_event = ''B''\<rparr>])
   \<and> render_timeline_with_events
     [[(''time'', ''2024-01-15 14:00:00''), (''event'', ''A'')],
      [(''time'', ''2024-01-15 14:00:01''), (''event'', ''B'')]]
   = Inr (Chart [] []
       [\<lparr>dot_left = 0, dot_time = ''2024-01-15 14:00:00'', dot_event = ''A''\<rparr>,
        \<lparr>dot_left = 100, dot_time = ''2024-01-15 14:00:01'', dot_event = ''B''\<rparr>])"
proof -
  let ?a = "[(''time'', ''2024-01-15 14:00:00''), (''event'', ''A'')]"
  let ?b = "[(''time'', ''2024-01-15 14:00:01''), (''event'', ''B'')]"
  let ?ta = "\<lparr>year = 2024, month = 1, day = 15, hour = 14, minute = 0, second = 0\<rparr>"
  let ?tb = "\<lparr>year = 2024, month = 1, day = 15, hour = 14, minute = 0, second = 1\<rparr>"
  have p: "start_parsed [?a, ?b] = [(?ta, ?a), (?tb, ?b)]"
    by code_simp
  have c: "classify [?a, ?b] = Inr ([(?ta, ?a), (?tb, ?b)], [])"
    by code_simp
  have h1: "2 \<le> length (start_parsed [?a, ?b])"
    unfolding p by simp
  have h2: "py_min (map fst (start_parsed [?a, ?b])) = Inr ?ta"
    unfolding p by (simp add: dt_less_def)
  have h3: "py_max (map fst (start_parsed [?a, ?b])) = Inr ?tb"
    unfolding p by (simp add: dt_less_def)
  have h4: "1 = total_seconds ?tb ?ta"
    by (simp add: total_seconds_def instant_def toordinal_def)
  have h5: "2 \<le> length [?a, ?b]"
    by simp
  have h7: "[(?ta, ?a), (?tb, ?b)] \<noteq> [] \<or> ([] :: range_event list) \<noteq> []"
    by simp
  have h8: "py_min (map fst [(?ta, ?a), (?tb, ?b)] @ map fst ([] :: range_event list) @
              map (\<lambda>r. fst (snd r)) ([] :: range_event list)) = Inr ?ta"
    by (simp add: dt_less_def)
  have h9: "py_max (map fst [(?ta, ?a), (?tb, ?b)] @ map fst ([] :: range_event list) @
              map (\<lambda>r. fst (snd r)) ([] :: range_event list)) = Inr ?tb"
    by (simp add: dt_less_def)
  have d: "map (event_dot ?ta 1) [(?ta, ?a), (?tb, ?b)] =
       [\<lparr>dot_left = 0, dot_time = ''2024-01-15 14:00:00'', dot_event = ''A''\<rparr>,
        \<lparr>dot_left = 100, dot_time = ''2024-01-15 14:00:01'', dot_event = ''B''\<rparr>]"
    by code_simp
  note T = ticks_and_dot_positions [OF h1 h2 h3 h4 h5 c h7 h8 h9 h4]
  from T [THEN conjunct1] have
    "render_horizontal_timeline [?a, ?b] =
       Inr (Chart [] [] (map (event_dot ?ta 1) (start_parsed [?a, ?b])))"
    by simp
  moreover from T [THEN conjunct2, THEN conjunct2, THEN conjunct1] have
    "render_timeline_with_events [?a, ?b] =
       Inr (Chart [] [] (map (event_dot ?ta 1) [(?ta, ?a), (?tb, ?b)]))"
    by simp
  ultimately show ?thesis
    unfolding p d by (rule conjI)
qed

text \<open>
  C3 as stated fails at a duration of exactly one second, which is at most one second:
  the two dots stand at 0 and 100 percent, not at 50.
\<close>

theorem one_second_apart_counterexample:
  "total_seconds \<lparr>year = 2024, month = 1, day = 15, hour = 14, minute = 0, second = 1\<rparr>
                 \<lparr>year = 2024, month = 1, day = 15, hour = 14, minute = 0, second = 0\<rparr> = 1
   \<and> render_horizontal_timeline
     [[(''time'', ''2024-01-15 14:00:00''), (''event'', ''A'')],
      [(''time'', ''2024-01-15 14:00:01''), (''event'', ''B'')]]
   = Inr (Chart [] []
       [\<lparr>dot_left = 0, dot_time = ''2024-01-15 14:00:00'', dot_event = ''A''\<rparr>,
        \<lparr>dot_left = 100, dot_time = ''2024-01-15 14:00:01'', dot_event = ''B''\<rparr>])"
proof -
  let ?a = "[(''time'', ''2024-01-15 14:00:00''), (''event'', ''A'')]"
  let ?b = "[(''time'', ''2024-01-15 14:00:01''), (''event'', ''B'')]"
  let ?ta = "\<lparr>year = 2024, month = 1, day = 15, hour = 14, minute = 0, second = 0\<rparr>"
  let ?tb = "\<lparr>year = 2024, month = 1, day = 15, hour = 14, minute = 0, second = 1\<rparr>"
  have p: "start_parsed [?a, ?b] = [(?ta, ?a), (?tb, ?b)]"
    by code_simp
  have t: "total_seconds ?tb ?ta = 1"
    by (simp add: total_seconds_def instant_def toordinal_def)
  have d: "map (event_dot ?ta 1) [(?ta, ?a), (?tb, ?b)] =
       [\<lparr>dot_left = 0, dot_time = ''2024-01-15 14:00:00'', dot_event = ''A''\<rparr>,
        \<lparr>dot_left = 100, dot_time = ''2024-01-15 14:00:01'', dot_event = ''B''\<rparr>]"
    by code_simp
  have "render_horizontal_timeline [?a, ?b] =
          Inr (Chart [] [] (map (event_dot ?ta 1) [(?ta, ?a), (?tb, ?b)]))"
    by (simp add: render_horizontal_timeline_def Let_def p t dt_less_def axis_markers_def
        marker_labels_def del: One_nat_def)
  with t d show ?thesis by simp
qed

subsection \<open>The event-line pattern\<close>

lemma is_dateE:
  assumes "is_date d"
  obtains y1 y2 y3 y4 m1 m2 e1 e2 where
    "list_all isdigit [y1, y2, y3, y4, m1, m2, e1, e2]"
    "d = [y1, y2, y3, y4, CHR ''-'', m1, m2, CHR ''-'', e1, e2]"
  using assms by (cases d rule: is_date.cases) auto

lemma is_hmE:
  assumes "is_hm t"
  obtains h1 h2 n1 n2 where
    "list_all isdigit [h1, h2, n1, n2]" "t = [h1, h2, CHR '':'', n1, n2]"
  using assms by (cases t rule: is_hm.cases) auto

lemma is_opt_range_iff:
  "is_opt_range rng \<longleftrightarrow>
     rng = [] \<or> (\<exists>t ss. is_hm t \<and> is_opt_ss ss \<and> rng = ''-'' @ t @ ss)"
proof
  assume "is_opt_range rng"
  then consider "rng = []"
    | "take 1 rng = ''-''" "is_hm (take 5 (drop 1 rng))" "is_opt_ss (drop 6 rng)"
    unfolding is_opt_range_def by blast
  then show "rng = [] \<or> (\<exists>t ss. is_hm t \<and> is_opt_ss ss \<and> rng = ''-'' @ t @ ss)"
  proof cases
    case 1
    then show ?thesis by simp
  next
    case 2
    from 2(1) obtain r where r: "rng = CHR ''-'' # r"
      by (cases rng) auto
    have "r = take 5 r @ drop 5 r"
      by simp
    with r have "rng = ''-'' @ take 5 (drop 1 rng) @ drop 6 rng"
      by simp
    with 2 show ?thesis by blast
  qed
next
  assume "rng = [] \<or> (\<exists>t ss. is_hm t \<and> is_opt_ss ss \<and> rng = ''-'' @ t @ ss)"
  then show "is_opt_range rng"
    by (auto simp: is_opt_range_def elim!: is_hmE)
qed

lemma is_stamp_iff:
  "is_stamp ts \<longleftrightarrow>
     (\<exists>d t ss rng. is_date d \<and> is_hm t \<and> is_opt_ss ss \<and> is_opt_range rng \<and>
        ts = d @ '' '' @ t @ ss @ rng)"
proof
  assume a: "is_stamp ts"
  let ?d = "take 10 ts" and ?t = "take 5 (drop 11 ts)"
  from a have d: "is_date ?d" and sp: "take 1 (drop 10 ts) = '' ''" and t: "is_hm ?t"
    by (simp_all add: is_stamp_def)
  from sp obtain r where r: "drop 10 ts = CHR '' '' # r"
    by (cases "drop 10 ts") auto
  then have r11: "drop 11 ts = r"
    using drop_drop [of 1 10 ts] by simp
  have "ts = ?d @ drop 10 ts"
    by simp
  then have eq: "ts = ?d @ '' '' @ ?t @ drop 16 ts"
    using r r11 drop_drop [of 5 11 ts] append_take_drop_id [of 5 r] by simp
  from a consider "is_opt_range (drop 16 ts)"
    | "is_opt_ss (take 3 (drop 16 ts))" "is_opt_range (drop 19 ts)"
    unfolding is_stamp_def by blast
  then show "\<exists>d t ss rng. is_date d \<and> is_hm t \<and> is_opt_ss ss \<and> is_opt_range rng \<and>
        ts = d @ '' '' @ t @ ss @ rng"
  proof cases
    case 1
    have "is_opt_ss []" by simp
    with d t 1 eq show ?thesis
      by (metis append_Nil)
  next
    case 2
    have "drop 16 ts = take 3 (drop 16 ts) @ drop 19 ts"
      using drop_drop [of 3 16 ts] append_take_drop_id [of 3 "drop 16 ts"] by simp
    with eq have "ts = ?d @ '' '' @ ?t @ take 3 (drop 16 ts) @ drop 19 ts"
      by simp
    with d t 2 show ?thesis by blast
  qed
next
  assume "\<exists>d t ss rng. is_date d \<and> is_hm t \<and> is_opt_ss ss \<and> is_opt_range rng \<and>
        ts = d @ '' '' @ t @ ss @ rng"
  then obtain d t ss rng where a: "is_date d" "is_hm t" "is_opt_ss ss" "is_opt_range rng"
    "ts = d @ '' '' @ t @ ss @ rng"
    by blast
  from a(1) have ld: "length d = 10" by (elim is_dateE) simp
  from a(2) have lt: "length t = 5" by (elim is_hmE) simp
  from a(3) consider "ss = []" | "length ss = 3"
    by (cases ss rule: is_opt_ss.cases) auto
  then show "is_stamp ts"
  proof cases
    case 1
    with a ld lt show ?thesis by (simp add: is_stamp_def)
  next
    case 2
    with a ld lt show ?thesis by (simp add: is_stamp_def)
  qed
qed

lemma is_stamp_length:
  assumes "is_stamp ts"
  shows "length ts \<in> {16, 19, 22, 25, 28}"
proof -
  from assms obtain d t ss rng where a: "is_date d" "is_hm t" "is_opt_ss ss" "is_opt_range rng"
    "ts = d @ '' '' @ t @ ss @ rng"
    unfolding is_stamp_iff by blast
  from a(1) have ld: "length d = 10" by (elim is_dateE) simp
  from a(2) have lt: "length t = 5" by (elim is_hmE) simp
  from a(3) have ls: "length ss = 0 \<or> length ss = 3"
    by (cases ss rule: is_opt_ss.cases) auto
  from a(4) have lr: "length rng = 0 \<or> length rng = 6 \<or> length rng = 9"
  proof -
    from a(4) consider "rng = []"
      | t2 ss2 where "is_hm t2" "is_opt_ss ss2" "rng = ''-'' @ t2 @ ss2"
      unfolding is_opt_range_iff by blast
    then show ?thesis
    proof cases
      case 1
      then show ?thesis by simp
    next
      case 2
      from 2(1) have "length t2 = 5" by (elim is_hmE) simp
      moreover from 2(2) have "length ss2 = 0 \<or> length ss2 = 3"
        by (cases ss2 rule: is_opt_ss.cases) auto
      ultimately show ?thesis using 2(3) by auto
    qed
  qed
  from ld lt ls lr a(5) show ?thesis by auto
qed

lemma has_stamp_colon_iff:
  "has_stamp_colon l \<longleftrightarrow> (\<exists>ts rest. is_stamp ts \<and> l = ts @ '':'' @ rest)"
proof
  assume "has_stamp_colon l"
  then obtain n where n: "is_stamp (take n l)" "take 1 (drop n l) = '':''"
    unfolding has_stamp_colon_def by auto
  from n(2) obtain r where "drop n l = CHR '':'' # r"
    by (cases "drop n l") auto
  then have "l = take n l @ '':'' @ r"
    using append_take_drop_id [of n l] by simp
  with n(1) show "\<exists>ts rest. is_stamp ts \<and> l = ts @ '':'' @ rest"
    by blast
next
  assume "\<exists>ts rest. is_stamp ts \<and> l = ts @ '':'' @ rest"
  then obtain ts rest where a: "is_stamp ts" "l = ts @ '':'' @ rest"
    by blast
  from a(1) have "length ts \<in> {16, 19, 22, 25, 28}"
    by (rule is_stamp_length)
  moreover have "is_stamp (take (length ts) l) \<and> take 1 (drop (length ts) l) = '':''"
    using a by simp
  ultimately show "has_stamp_colon l"
    unfolding has_stamp_colon_def by auto
qed

lemma rmatch_is_date:
  assumes "is_date d"
  shows "rmatch date_re (p, d @ s, g) k = k (Some (last d), s, g)"
  using assms by (elim is_dateE) (simp add: rmatch_date)

lemma rmatch_is_hm:
  assumes "is_hm t"
  shows "rmatch hm_re (p, t @ s, g) k = k (Some (last t), s, g)"
  using assms by (elim is_hmE) (simp add: rmatch_hm)

































lemma has_stamp_colon_digit:
  assumes "has_stamp_colon l"
  obtains x xs where "l = x # xs" "isdigit x"
proof -
  from assms obtain d t ss rng rest where
    "is_date d" "l = (d @ '' '' @ t @ ss @ rng) @ '':'' @ rest"
    unfolding has_stamp_colon_iff is_stamp_iff by blast
  then show ?thesis
    by (elim is_dateE) (auto intro: that)
qed





end
